theory Spec2Isabelle
  imports Main
begin

section \<open>Data shapes\<close>

text \<open>
  The \<^verbatim>\<open>Debate\<close> interface of \<^verbatim>\<open>models.ts\<close>: a numeric id and a topic. The field
  \<^verbatim>\<open>id\<close> is called \<open>debate_id\<close> here, since \<open>id\<close> is the identity function of HOL.
  Ids are integers, taken to be JavaScript numbers that are rendered with all their
  digits (below \<open>2\<^sup>5\<^sup>3\<close> in absolute value). JavaScript strings are modelled as
  \<open>string\<close>, one \<open>char\<close> per UTF-16 code unit, so the model covers the strings whose code
  units are below 256.
\<close>

record debate =
  debate_id :: int
  topic :: string

text \<open>
  The objects that \<^verbatim>\<open>ngOnInit\<close> builds with \<^verbatim>\<open>{...debate, selectionCount: n}\<close>: a
  debate with its selection count.
\<close>

record enriched_debate = debate +
  selectionCount :: int

datatype view_mode = Grid | ListView

section \<open>The component and its environment\<close>

text \<open>
  The router receives an array of path segments; \<^verbatim>\<open>['/debates', id]\<close> holds a string and
  a number.
\<close>

datatype segment = Str string | Num int

text \<open>
  The calls the component makes on its collaborators, in the order it makes them:
  \<^verbatim>\<open>localStorage.setItem(key, value)\<close> and \<^verbatim>\<open>router.navigate(segments)\<close>.
\<close>

datatype effect = SetItem string string | Navigate "segment list"

text \<open>
  The fields of \<^verbatim>\<open>TopicsListComponent\<close>, the content of the browser's local storage
  (\<open>None\<close> is a key that \<^verbatim>\<open>getItem\<close> answers with \<^verbatim>\<open>null\<close>) and the log of the calls
  made so far. \<open>selectedDebate\<close> is held by value with the fields its declared type
  \<^verbatim>\<open>Debate | null\<close> has. In the program the template passes an entry of \<open>debates\<close> to
  \<^verbatim>\<open>openSetup\<close>, so the selected object is that entry and a later write to the entry's
  \<^verbatim>\<open>selectionCount\<close> shows through \<open>selectedDebate\<close> too; no method reads that field of
  the selected debate, and the model does not keep it.
\<close>

record app_state =
  debates :: "enriched_debate list"
  viewMode :: view_mode
  selectedDebate :: "debate option"
  debaterA :: string
  debaterB :: string
  localStorage :: "string \<rightharpoonup> string"
  effects :: "effect list"

text \<open>The field initialisers of the class, over a given storage.\<close>

definition initial :: "(string \<rightharpoonup> string) \<Rightarrow> app_state" where
  "initial store =
     \<lparr>debates = [], viewMode = Grid, selectedDebate = None,
      debaterA = ''Alice'', debaterB = ''Bob'', localStorage = store, effects = []\<rparr>"

text \<open>
  \<^verbatim>\<open>localStorage.setItem\<close> stores the value and is logged; it is taken to succeed (no
  quota or security error). \<^verbatim>\<open>router.navigate\<close> is logged only: what the router does
  with the request is outside the component.
\<close>

definition setItem :: "string \<Rightarrow> string \<Rightarrow> app_state \<Rightarrow> app_state" where
  "setItem k v s =
     s\<lparr>localStorage := (localStorage s)(k \<mapsto> v), effects := effects s @ [SetItem k v]\<rparr>"

definition getItem :: "string \<Rightarrow> app_state \<Rightarrow> string option" where
  "getItem k s = localStorage s k"

definition navigate :: "segment list \<Rightarrow> app_state \<Rightarrow> app_state" where
  "navigate segs s = s\<lparr>effects := effects s @ [Navigate segs]\<rparr>"

section \<open>The string operations of the language that the component uses\<close>

text \<open>
  \<^verbatim>\<open>String.prototype.trim\<close> removes white space and line terminators from both ends.
  Below code unit 256 these are tab, line feed, vertical tab, form feed, carriage
  return, space and the no-break space.
\<close>

definition is_white_space :: "char \<Rightarrow> bool" where
  "is_white_space c \<longleftrightarrow>
     c \<in> set [CHR 0x09, CHR 0x0A, CHR 0x0B, CHR 0x0C, CHR 0x0D, CHR 0x20, CHR 0xA0]"

definition trim :: "string \<Rightarrow> string" where
  "trim s = rev (dropWhile is_white_space (rev (dropWhile is_white_space s)))"

text \<open>
  The comparison of \<^verbatim>\<open>Array.prototype.sort\<close> without a comparator: strings are compared
  code unit by code unit, a proper prefix being smaller.
\<close>

fun str_less :: "string \<Rightarrow> string \<Rightarrow> bool" where
  "str_less [] [] = False"
| "str_less [] (y # ys) = True"
| "str_less (x # xs) [] = False"
| "str_less (x # xs) (y # ys) =
     ((of_char x :: nat) < of_char y \<or> (x = y \<and> str_less xs ys))"

text \<open>
  \<^verbatim>\<open>sort()\<close> is stable: an element goes behind the elements that are not greater.
\<close>

fun insort_str :: "string \<Rightarrow> string list \<Rightarrow> string list" where
  "insort_str x [] = [x]"
| "insort_str x (y # ys) = (if str_less x y then x # y # ys else y # insort_str x ys)"

definition array_sort :: "string list \<Rightarrow> string list" where
  "array_sort xs = foldl (\<lambda>acc x. insort_str x acc) [] xs"

fun join :: "string \<Rightarrow> string list \<Rightarrow> string" where
  "join sep [] = []"
| "join sep [x] = x"
| "join sep (x # y # ys) = x @ sep @ join sep (y # ys)"

text \<open>
  The decimal rendering of a number in a template literal or as a property key. An
  integer below \<open>10\<^sup>2\<^sup>1\<close> in absolute value is rendered with all its digits, as here;
  from \<open>10\<^sup>2\<^sup>1\<close> on JavaScript writes an exponent, which this function does not, so it
  is the rendering of the ids and counts below that bound only.
\<close>

definition digit_char :: "nat \<Rightarrow> char" where
  "digit_char d = ''0123456789'' ! d"

fun show_nat :: "nat \<Rightarrow> string" where
  "show_nat n = (if n < 10 then [digit_char n] else show_nat (n div 10) @ [digit_char (n mod 10)])"

declare show_nat.simps [simp del]

definition Number_toString :: "int \<Rightarrow> string" where
  "Number_toString i = (if i < 0 then CHR ''-'' # show_nat (nat (- i)) else show_nat (nat i))"

section \<open>The methods of the component\<close>

text \<open>\<^verbatim>\<open>setViewMode(mode) { this.viewMode = mode; }\<close>\<close>

definition setViewMode :: "view_mode \<Rightarrow> app_state \<Rightarrow> app_state" where
  "setViewMode mode s = s\<lparr>viewMode := mode\<rparr>"

text \<open>\<^verbatim>\<open>closeSetup() { this.selectedDebate = null; }\<close>\<close>

definition closeSetup :: "app_state \<Rightarrow> app_state" where
  "closeSetup s = s\<lparr>selectedDebate := None\<rparr>"

text \<open>
  The session identifier of \<^verbatim>\<open>startDebate\<close>:
  \<^verbatim>\<open>[this.debaterA, this.debaterB].sort().join('_')\<close> behind the debate's id and an
  underscore.
\<close>

definition sessionId :: "debate \<Rightarrow> string \<Rightarrow> string \<Rightarrow> string" where
  "sessionId d a b = Number_toString (debate_id d) @ ''_'' @ join ''_'' (array_sort [a, b])"

text \<open>
  \<^verbatim>\<open>startDebate\<close>: the guard returns early when no debate is selected or a name is
  empty once trimmed (the empty string is the only falsy string); otherwise five items
  are stored, the names as the fields hold them, and the router is called.
\<close>

definition startDebate :: "app_state \<Rightarrow> app_state" where
  "startDebate s =
     (case selectedDebate s of
        None \<Rightarrow> s
      | Some d \<Rightarrow>
          if trim (debaterA s) = [] \<or> trim (debaterB s) = [] then s
          else
            let s1 = setItem ''debaterA'' (debaterA s) s;
                s2 = setItem ''debaterB'' (debaterB s1) s1;
                s3 = setItem ''username'' (debaterA s2) s2;
                s4 = setItem ''debateTopic'' (topic d) s3;
                s5 = setItem ''currentSessionId'' (sessionId d (debaterA s4) (debaterB s4)) s4
            in navigate [Str ''/debates'', Num (debate_id d)] s5)"

section \<open>\<^verbatim>\<open>JSON.parse\<close> and \<^verbatim>\<open>JSON.stringify\<close>\<close>

text \<open>
  The exception of the language that the component can meet: \<^verbatim>\<open>JSON.parse\<close> throws a
  \<^verbatim>\<open>SyntaxError\<close> on a text that is not JSON.
\<close>

datatype error = SyntaxError

text \<open>
  What evaluating an expression gives: a value, an exception, or \<open>Unmodelled\<close> where the
  program leaves what this theory describes (a code unit of 256 or more, a stored value
  that is not an object of integer counts). No statement below is made about an
  \<open>Unmodelled\<close> run.
\<close>

datatype 'a result = Ok 'a | Throw error | Unmodelled

text \<open>
  JSON values. A number is kept as the decimal its literal denotes, \<open>JNumber m e\<close> for
  \<open>m \<times> 10\<^sup>e\<close>; an object is the list of its members in the order in which JavaScript
  enumerates them.
\<close>

datatype json =
    JNull
  | JBool bool
  | JNumber int int
  | JString string
  | JArray "json list"
  | JObject "(string \<times> json) list"

text \<open>The tokens of the JSON grammar.\<close>

datatype token =
    LBrace | RBrace | LBracket | RBracket | Colon | Comma
  | TString string | TNumber int int | TTrue | TFalse | TNull

text \<open>JSON white space is space, tab, line feed and carriage return.\<close>

definition is_json_ws :: "char \<Rightarrow> bool" where
  "is_json_ws c \<longleftrightarrow> c \<in> set [CHR 0x20, CHR 0x09, CHR 0x0A, CHR 0x0D]"

definition is_digit :: "char \<Rightarrow> bool" where
  "is_digit c \<longleftrightarrow> c \<in> set ''0123456789''"

definition digit_val :: "char \<Rightarrow> nat" where
  "digit_val c = of_char c - 48"

definition read_nat :: "string \<Rightarrow> nat" where
  "read_nat ds = foldl (\<lambda>n c. 10 * n + digit_val c) 0 ds"

text \<open>The hexadecimal digits of a \<^verbatim>\<open>u\<close> escape, in either case; there are four.\<close>

definition hex_val :: "char \<Rightarrow> nat option" where
  "hex_val c =
     (if is_digit c then Some (of_char c - 48)
      else if c \<in> set ''abcdef'' then Some (of_char c - 87)
      else if c \<in> set ''ABCDEF'' then Some (of_char c - 55)
      else None)"

definition hex4 :: "char \<Rightarrow> char \<Rightarrow> char \<Rightarrow> char \<Rightarrow> nat option" where
  "hex4 a b c d =
     (case (hex_val a, hex_val b, hex_val c, hex_val d) of
        (Some x, Some y, Some z, Some w) \<Rightarrow> Some (((x * 16 + y) * 16 + z) * 16 + w)
      | _ \<Rightarrow> None)"

text \<open>
  The two-character escapes: quotation mark, reverse solidus, solidus, and
  \<^verbatim>\<open>b f n r t\<close>.
\<close>

definition escape_char :: "char \<Rightarrow> char option" where
  "escape_char e =
     (if e = CHR 0x22 then Some (CHR 0x22)
      else if e = CHR 0x5C then Some (CHR 0x5C)
      else if e = CHR ''/'' then Some (CHR ''/'')
      else if e = CHR ''b'' then Some (CHR 0x08)
      else if e = CHR ''f'' then Some (CHR 0x0C)
      else if e = CHR ''n'' then Some (CHR 0x0A)
      else if e = CHR ''r'' then Some (CHR 0x0D)
      else if e = CHR ''t'' then Some (CHR 0x09)
      else None)"

definition push :: "char \<Rightarrow> (string \<times> string) result \<Rightarrow> (string \<times> string) result" where
  "push c r = (case r of Ok (s, rest) \<Rightarrow> Ok (c # s, rest) | Throw e \<Rightarrow> Throw e | Unmodelled \<Rightarrow> Unmodelled)"

text \<open>
  The characters of a string behind its opening quotation mark, up to the closing one,
  with what follows. A control character (below \<^verbatim>\<open>0x20\<close>) may not stand unescaped. An
  escape that denotes a code unit of 256 or more is outside the strings modelled here.
\<close>

fun lex_string :: "string \<Rightarrow> (string \<times> string) result" where
  "lex_string [] = Throw SyntaxError"
| "lex_string (c # cs) =
     (if c = CHR 0x22 then Ok ([], cs)
      else if c = CHR 0x5C then
        (case cs of
           [] \<Rightarrow> Throw SyntaxError
         | e # cs' \<Rightarrow>
             if e = CHR ''u'' then
               (case cs' of
                  h1 # h2 # h3 # h4 # cs'' \<Rightarrow>
                    (case hex4 h1 h2 h3 h4 of
                       None \<Rightarrow> Throw SyntaxError
                     | Some n \<Rightarrow> if n < 256 then push (char_of n) (lex_string cs'') else Unmodelled)
                | _ \<Rightarrow> Throw SyntaxError)
             else
               (case escape_char e of
                  None \<Rightarrow> Throw SyntaxError
                | Some x \<Rightarrow> push x (lex_string cs')))
      else if (of_char c :: nat) < 32 then Throw SyntaxError
      else push c (lex_string cs))"

text \<open>
  A number: an optional minus sign, an integer part without a leading zero (unless it
  is the digit 0 alone), an optional fraction with at least one digit and an optional
  exponent with at least one digit. The result is the mantissa, the decimal exponent
  and the rest of the text; \<open>None\<close> is a malformed number.
\<close>

definition lex_sign :: "string \<Rightarrow> bool \<times> string" where
  "lex_sign cs = (case cs of c # r \<Rightarrow> if c = CHR ''-'' then (True, r) else (False, cs) | [] \<Rightarrow> (False, cs))"

definition lex_fraction :: "string \<Rightarrow> (string \<times> string) option" where
  "lex_fraction cs =
     (case cs of
        c # r \<Rightarrow>
          if c = CHR ''.'' then
            (if takeWhile is_digit r = [] then None
             else Some (takeWhile is_digit r, dropWhile is_digit r))
          else Some ([], cs)
      | [] \<Rightarrow> Some ([], cs))"

definition lex_exponent :: "string \<Rightarrow> (int \<times> string) option" where
  "lex_exponent cs =
     (case cs of
        c # r \<Rightarrow>
          if c = CHR ''e'' \<or> c = CHR ''E'' then
            (let (neg, r') =
               (case r of
                  x # r2 \<Rightarrow> if x = CHR ''-'' then (True, r2) else if x = CHR ''+'' then (False, r2) else (False, r)
                | [] \<Rightarrow> (False, r))
             in if takeWhile is_digit r' = [] then None
                else Some ((if neg then - int (read_nat (takeWhile is_digit r'))
                            else int (read_nat (takeWhile is_digit r'))),
                           dropWhile is_digit r'))
          else Some (0, cs)
      | [] \<Rightarrow> Some (0, cs))"

definition lex_number :: "string \<Rightarrow> ((int \<times> int) \<times> string) option" where
  "lex_number cs =
     (let (neg, cs1) = lex_sign cs;
          ds = takeWhile is_digit cs1
      in if ds = [] \<or> (hd ds = CHR ''0'' \<and> length ds > 1) then None
         else
           (case lex_fraction (dropWhile is_digit cs1) of
              None \<Rightarrow> None
            | Some (fs, cs3) \<Rightarrow>
                (case lex_exponent cs3 of
                   None \<Rightarrow> None
                 | Some (ex, cs4) \<Rightarrow>
                     Some ((if neg then - int (read_nat (ds @ fs)) else int (read_nat (ds @ fs)),
                            ex - int (length fs)), cs4))))"

definition emit :: "token \<Rightarrow> token list result \<Rightarrow> token list result" where
  "emit t r = (case r of Ok ts \<Rightarrow> Ok (t # ts) | Throw e \<Rightarrow> Throw e | Unmodelled \<Rightarrow> Unmodelled)"

text \<open>
  The text as tokens. Anything that starts no token is a syntax error.
\<close>

function lex :: "string \<Rightarrow> token list result" where
  "lex [] = Ok []"
| "lex (c # cs) =
     (if is_json_ws c then lex cs
      else if c = CHR ''{'' then emit LBrace (lex cs)
      else if c = CHR ''}'' then emit RBrace (lex cs)
      else if c = CHR ''['' then emit LBracket (lex cs)
      else if c = CHR '']'' then emit RBracket (lex cs)
      else if c = CHR '':'' then emit Colon (lex cs)
      else if c = CHR '','' then emit Comma (lex cs)
      else if c = CHR 0x22 then
        (case lex_string cs of
           Ok (s, rest) \<Rightarrow> emit (TString s) (lex rest)
         | Throw e \<Rightarrow> Throw e
         | Unmodelled \<Rightarrow> Unmodelled)
      else if c = CHR ''-'' \<or> is_digit c then
        (case lex_number (c # cs) of
           None \<Rightarrow> Throw SyntaxError
         | Some ((m, e), rest) \<Rightarrow> emit (TNumber m e) (lex rest))
      else if take 4 (c # cs) = ''true'' then emit TTrue (lex (drop 3 cs))
      else if take 5 (c # cs) = ''false'' then emit TFalse (lex (drop 4 cs))
      else if take 4 (c # cs) = ''null'' then emit TNull (lex (drop 3 cs))
      else Throw SyntaxError)"
  by pat_completeness auto

termination
proof -
  have str: "length rest \<le> length cs" if "lex_string cs = Ok (s, rest)" for cs s rest
    using that
  proof (induction cs arbitrary: s rest rule: lex_string.induct)
    case 1
    then show ?case by simp
  next
    case (2 c cs)
    then show ?case
      by (fastforce simp: push_def split: if_splits list.splits option.splits result.splits)
  qed
  have num: "length rest < length cs" if "lex_number cs = Some (v, rest)" for cs v rest
  proof -
    have d: "length (dropWhile is_digit xs) \<le> length xs" for xs
      by (rule length_dropWhile_le)
    have t: "takeWhile is_digit xs \<noteq> [] \<Longrightarrow> length (dropWhile is_digit xs) < length xs" for xs
      by (cases xs) (auto simp: le_imp_less_Suc d split: if_splits)
    have f: "lex_fraction xs = Some (fs, ys) \<Longrightarrow> length ys \<le> length xs" for xs fs ys
      using d by (auto simp: lex_fraction_def le_SucI split: list.splits if_splits)
    have e: "lex_exponent xs = Some (ex, ys) \<Longrightarrow> length ys \<le> length xs" for xs ex ys
      using d by (auto simp: lex_exponent_def Let_def le_SucI split: list.splits if_splits prod.splits)
    have s: "lex_sign xs = (neg, ys) \<Longrightarrow> length ys \<le> length xs" for xs neg ys
      by (auto simp: lex_sign_def split: list.splits if_splits)
    from that obtain neg cs1 fs cs3 ex where
      a: "lex_sign cs = (neg, cs1)" and b: "takeWhile is_digit cs1 \<noteq> []"
      and c: "lex_fraction (dropWhile is_digit cs1) = Some (fs, cs3)"
      and g: "lex_exponent cs3 = Some (ex, rest)"
      by (auto simp: lex_number_def Let_def split: prod.splits if_splits option.splits)
    from s [OF a] t [OF b] f [OF c] e [OF g] show ?thesis by linarith
  qed
  show ?thesis
  proof (relation "measure length", goal_cases)
    case (9 c cs x s rest)
    from 9(9,10) have "lex_string cs = Ok (s, rest)" by simp
    from str [OF this] show ?case by simp
  next
    case (10 c cs x v rest m e)
    from 10(10,11) have "lex_number (c # cs) = Some (v, rest)" by simp
    from num [OF this] show ?case by simp
  qed (simp_all (no_asm))
qed

declare lex.simps [simp del]

text \<open>
  The own properties of an ordinary object are enumerated with the array indices first,
  in ascending order, and the other string keys behind them in the order in which they
  were created. A key is an array index when it is the decimal rendering of a number up
  to \<open>2\<^sup>3\<^sup>2 - 2\<close>.
\<close>

definition index_of :: "string \<Rightarrow> nat option" where
  "index_of k =
     (if k \<noteq> [] \<and> list_all is_digit k \<and> show_nat (read_nat k) = k \<and> read_nat k \<le> 4294967294
      then Some (read_nat k) else None)"

text \<open>\<open>ok_before a b\<close>: the key \<open>a\<close> may stand before the key \<open>b\<close>, created later.\<close>

definition ok_before :: "string \<Rightarrow> string \<Rightarrow> bool" where
  "ok_before a b =
     (case index_of b of
        None \<Rightarrow> True
      | Some n \<Rightarrow> (case index_of a of None \<Rightarrow> False | Some m \<Rightarrow> m < n))"

text \<open>
  \<^verbatim>\<open>obj[k] = v\<close> on an object held as the list of its members: a key that is present keeps
  its place and takes the new value, a new key goes to its place in the enumeration.
\<close>

fun obj_insert :: "string \<Rightarrow> 'v \<Rightarrow> (string \<times> 'v) list \<Rightarrow> (string \<times> 'v) list" where
  "obj_insert k v [] = [(k, v)]"
| "obj_insert k v ((k', v') # kvs) =
     (if ok_before k' k then (k', v') # obj_insert k v kvs else (k, v) # (k', v') # kvs)"

fun obj_update :: "string \<Rightarrow> 'v \<Rightarrow> (string \<times> 'v) list \<Rightarrow> (string \<times> 'v) list" where
  "obj_update k v [] = []"
| "obj_update k v ((k', v') # kvs) =
     (if k' = k then (k, v) # kvs else (k', v') # obj_update k v kvs)"

definition obj_set :: "string \<Rightarrow> 'v \<Rightarrow> (string \<times> 'v) list \<Rightarrow> (string \<times> 'v) list" where
  "obj_set k v kvs = (if k \<in> fst ` set kvs then obj_update k v kvs else obj_insert k v kvs)"

text \<open>
  The parser reads the tokens from left to right with a stack of the arrays and objects
  that are open: \<open>FArray elems\<close> waits for the next element, \<open>FObject obj k\<close> for the
  value of the key \<open>k\<close>. The states say what may come next. A member is added to its
  object with \<open>obj_set\<close>, so that of two members with one key the later value stays, at the
  place of the first.
\<close>

datatype frame = FArray "json list" | FObject "(string \<times> json) list" string

datatype pstate =
    ExpectValue "frame list"
  | AfterLBracket "frame list"
  | AfterLBrace "frame list"
  | ExpectKey "(string \<times> json) list" "frame list"
  | ExpectColon "(string \<times> json) list" string "frame list"
  | AfterElement "json list" "frame list"
  | AfterMember "(string \<times> json) list" "frame list"
  | Done json

fun deliver :: "json \<Rightarrow> frame list \<Rightarrow> pstate" where
  "deliver v [] = Done v"
| "deliver v (FArray elems # st) = AfterElement (elems @ [v]) st"
| "deliver v (FObject obj k # st) = AfterMember (obj_set k v obj) st"

fun scalar :: "token \<Rightarrow> json option" where
  "scalar (TString s) = Some (JString s)"
| "scalar (TNumber m e) = Some (JNumber m e)"
| "scalar TTrue = Some (JBool True)"
| "scalar TFalse = Some (JBool False)"
| "scalar TNull = Some JNull"
| "scalar _ = None"

definition expect_value :: "frame list \<Rightarrow> token \<Rightarrow> pstate option" where
  "expect_value st t =
     (case scalar t of
        Some v \<Rightarrow> Some (deliver v st)
      | None \<Rightarrow>
          if t = LBracket then Some (AfterLBracket st)
          else if t = LBrace then Some (AfterLBrace st)
          else None)"

fun step :: "pstate \<Rightarrow> token \<Rightarrow> pstate option" where
  "step (ExpectValue st) t = expect_value st t"
| "step (AfterLBracket st) t =
     (if t = RBracket then Some (deliver (JArray []) st) else expect_value (FArray [] # st) t)"
| "step (AfterLBrace st) t =
     (if t = RBrace then Some (deliver (JObject []) st)
      else (case t of TString k \<Rightarrow> Some (ExpectColon [] k st) | _ \<Rightarrow> None))"
| "step (ExpectKey obj st) t = (case t of TString k \<Rightarrow> Some (ExpectColon obj k st) | _ \<Rightarrow> None)"
| "step (ExpectColon obj k st) t = (if t = Colon then Some (ExpectValue (FObject obj k # st)) else None)"
| "step (AfterElement elems st) t =
     (if t = Comma then Some (ExpectValue (FArray elems # st))
      else if t = RBracket then Some (deliver (JArray elems) st)
      else None)"
| "step (AfterMember obj st) t =
     (if t = Comma then Some (ExpectKey obj st)
      else if t = RBrace then Some (deliver (JObject obj) st)
      else None)"
| "step (Done v) t = None"

fun run :: "pstate \<Rightarrow> token list \<Rightarrow> pstate option" where
  "run p [] = Some p"
| "run p (t # ts) = (case step p t of None \<Rightarrow> None | Some p' \<Rightarrow> run p' ts)"

text \<open>
  The text is JSON when the tokens lead from \<open>ExpectValue []\<close> to \<open>Done v\<close>; anything
  else is a syntax error.
\<close>

definition parse_tokens :: "token list \<Rightarrow> json result" where
  "parse_tokens ts =
     (case run (ExpectValue []) ts of Some (Done v) \<Rightarrow> Ok v | _ \<Rightarrow> Throw SyntaxError)"

definition JSON_parse :: "string \<Rightarrow> json result" where
  "JSON_parse src =
     (case lex src of
        Ok ts \<Rightarrow> parse_tokens ts
      | Throw e \<Rightarrow> Throw e
      | Unmodelled \<Rightarrow> Unmodelled)"

section \<open>The counter map\<close>

text \<open>
  \<^verbatim>\<open>getDebateCounts\<close> declares its result as \<^verbatim>\<open>{ [key: number]: number }\<close>. The counter
  maps of this theory are the objects all of whose values are integers between
  \<open>- 2\<^sup>5\<^sup>3\<close> and \<open>2\<^sup>5\<^sup>3\<close>, the range in which every integer is a JavaScript number. A
  parsed value of another shape is outside the model.
\<close>

definition num_int :: "int \<Rightarrow> int \<Rightarrow> int option" where
  "num_int m e =
     (if 0 \<le> e then Some (m * 10 ^ nat e)
      else if m mod 10 ^ nat (- e) = 0 then Some (m div 10 ^ nat (- e))
      else None)"

definition max_exact :: int where
  "max_exact = 9007199254740992"

fun as_count :: "json \<Rightarrow> int option" where
  "as_count (JNumber m e) =
     (case num_int m e of
        Some n \<Rightarrow> if - max_exact \<le> n \<and> n \<le> max_exact then Some n else None
      | None \<Rightarrow> None)"
| "as_count _ = None"

fun as_members :: "(string \<times> json) list \<Rightarrow> (string \<times> int) list option" where
  "as_members [] = Some []"
| "as_members ((k, v) # kvs) =
     (case as_count v of
        None \<Rightarrow> None
      | Some n \<Rightarrow> (case as_members kvs of None \<Rightarrow> None | Some m \<Rightarrow> Some ((k, n) # m)))"

fun as_counts :: "json \<Rightarrow> (string \<times> int) list option" where
  "as_counts (JObject kvs) = as_members kvs"
| "as_counts _ = None"

text \<open>
  \<^verbatim>\<open>JSON.stringify\<close> on a counter map. A key is quoted with the quotation mark, the reverse
  solidus and the control characters escaped (the short escapes where there is one,
  \<^verbatim>\<open>u00\<close> and two lower-case hexadecimal digits otherwise); a count is rendered in decimal;
  the members are separated by commas, in the order of enumeration.
\<close>

definition hex_digit :: "nat \<Rightarrow> char" where
  "hex_digit d = ''0123456789abcdef'' ! d"

definition quote_char :: "char \<Rightarrow> string" where
  "quote_char c =
     (if c = CHR 0x22 then [CHR 0x5C, CHR 0x22]
      else if c = CHR 0x5C then [CHR 0x5C, CHR 0x5C]
      else if c = CHR 0x08 then [CHR 0x5C, CHR ''b'']
      else if c = CHR 0x0C then [CHR 0x5C, CHR ''f'']
      else if c = CHR 0x0A then [CHR 0x5C, CHR ''n'']
      else if c = CHR 0x0D then [CHR 0x5C, CHR ''r'']
      else if c = CHR 0x09 then [CHR 0x5C, CHR ''t'']
      else if (of_char c :: nat) < 32 then
        [CHR 0x5C, CHR ''u'', CHR ''0'', CHR ''0'', hex_digit (of_char c div 16), hex_digit (of_char c mod 16)]
      else [c])"

definition quote :: "string \<Rightarrow> string" where
  "quote s = CHR 0x22 # concat (map quote_char s) @ [CHR 0x22]"

definition JSON_stringify :: "(string \<times> int) list \<Rightarrow> string" where
  "JSON_stringify counts =
     ''{'' @ join '','' (map (\<lambda>(k, n). quote k @ '':'' @ Number_toString n) counts) @ ''}''"

section \<open>The methods that use the stored counters\<close>

text \<open>
  How a call of a method ends: it returns, leaving a state; it throws, leaving the state
  reached when the exception was thrown; or it leaves the model (see \<open>Unmodelled\<close>).
\<close>

datatype outcome = Returns app_state | Throws error app_state | NotModelled

text \<open>
  \<^verbatim>\<open>const counts = localStorage.getItem('debateCounts');\<close>
  \<^verbatim>\<open>return counts ? JSON.parse(counts) : {};\<close>
  An absent item (\<^verbatim>\<open>null\<close>) and the empty string are falsy and give the empty object.
  Any other string goes to \<^verbatim>\<open>JSON.parse\<close>, whose exception is not caught.
\<close>

definition getDebateCounts :: "app_state \<Rightarrow> (string \<times> int) list result" where
  "getDebateCounts s =
     (case getItem ''debateCounts'' s of
        None \<Rightarrow> Ok []
      | Some raw \<Rightarrow>
          if raw = [] then Ok []
          else
            (case JSON_parse raw of
               Ok j \<Rightarrow> (case as_counts j of Some counts \<Rightarrow> Ok counts | None \<Rightarrow> Unmodelled)
             | Throw e \<Rightarrow> Throw e
             | Unmodelled \<Rightarrow> Unmodelled))"

text \<open>
  \<^verbatim>\<open>counts[id]\<close>: the property whose key is the rendering of the number; \<open>None\<close> is
  \<^verbatim>\<open>undefined\<close>.
\<close>

definition prop_get :: "(string \<times> int) list \<Rightarrow> int \<Rightarrow> int option" where
  "prop_get counts i = map_of counts (Number_toString i)"

text \<open>\<^verbatim>\<open>x || 0\<close>: \<^verbatim>\<open>undefined\<close> and the number 0 are falsy.\<close>

fun or_zero :: "int option \<Rightarrow> int" where
  "or_zero None = 0"
| "or_zero (Some n) = (if n = 0 then 0 else n)"

text \<open>
  \<^verbatim>\<open>n + 1\<close> on the integers from \<open>- 2\<^sup>5\<^sup>3\<close> to \<open>2\<^sup>5\<^sup>3\<close>: the sum is exact except at
  \<open>2\<^sup>5\<^sup>3\<close>, where \<open>2\<^sup>5\<^sup>3 + 1\<close> is not a JavaScript number and rounds to \<open>2\<^sup>5\<^sup>3\<close>.
\<close>

definition plus_one :: "int \<Rightarrow> int" where
  "plus_one n = (if n = max_exact then max_exact else n + 1)"

text \<open>
  \<^verbatim>\<open>const x = xs.find(p); if (x) { x.f = v; }\<close>: the first element that satisfies the
  predicate is changed, and nothing when there is none.
\<close>

fun update_first :: "('a \<Rightarrow> bool) \<Rightarrow> ('a \<Rightarrow> 'a) \<Rightarrow> 'a list \<Rightarrow> 'a list" where
  "update_first P f [] = []"
| "update_first P f (x # xs) = (if P x then f x # xs else x # update_first P f xs)"

text \<open>
  \<^verbatim>\<open>ngOnInit\<close> subscribes to \<^verbatim>\<open>getDebates()\<close>. The model is the subscriber, run on the list
  \<open>data\<close> that the service delivers: the counters are read once, and every debate is
  copied with its \<^verbatim>\<open>selectionCount: counts[debate.id] || 0\<close>.
\<close>

definition ngOnInit :: "debate list \<Rightarrow> app_state \<Rightarrow> outcome" where
  "ngOnInit data s =
     (case getDebateCounts s of
        Throw e \<Rightarrow> Throws e s
      | Unmodelled \<Rightarrow> NotModelled
      | Ok counts \<Rightarrow>
          Returns (s\<lparr>debates :=
            map (\<lambda>d. \<lparr>debate_id = debate_id d, topic = topic d,
                       selectionCount = or_zero (prop_get counts (debate_id d))\<rparr>) data\<rparr>))"

text \<open>
  \<^verbatim>\<open>incrementDebateCount\<close>: read the counters, set
  \<^verbatim>\<open>counts[debateId] = (counts[debateId] || 0) + 1\<close>, store the rendering of the map, and
  give the new count to the first entry of the list with that id, if there is one.
\<close>

definition incrementDebateCount :: "int \<Rightarrow> app_state \<Rightarrow> outcome" where
  "incrementDebateCount debateId s =
     (case getDebateCounts s of
        Throw e \<Rightarrow> Throws e s
      | Unmodelled \<Rightarrow> NotModelled
      | Ok counts \<Rightarrow>
          let n = plus_one (or_zero (prop_get counts debateId));
              counts' = obj_set (Number_toString debateId) n counts;
              s' = setItem ''debateCounts'' (JSON_stringify counts') s
          in Returns (s'\<lparr>debates :=
               update_first (\<lambda>d. debate_id d = debateId) (\<lambda>d. d\<lparr>selectionCount := n\<rparr>) (debates s')\<rparr>))"

text \<open>
  \<^verbatim>\<open>openSetup\<close>: \<^verbatim>\<open>this.selectedDebate = debate\<close> first, then the increment, so that the
  debate is selected already when the increment throws.
\<close>

definition openSetup :: "debate \<Rightarrow> app_state \<Rightarrow> outcome" where
  "openSetup d s = incrementDebateCount (debate_id d) (s\<lparr>selectedDebate := Some d\<rparr>)"

text \<open>
  The stored counter of an id as the component reads it:
  \<^verbatim>\<open>this.getDebateCounts()[id] || 0\<close>.
\<close>

definition read_count :: "int \<Rightarrow> app_state \<Rightarrow> int result" where
  "read_count i s =
     (case getDebateCounts s of
        Ok counts \<Rightarrow> Ok (or_zero (prop_get counts i))
      | Throw e \<Rightarrow> Throw e
      | Unmodelled \<Rightarrow> Unmodelled)"

section \<open>Notions used in the proofs\<close>

text \<open>The keys of an object, in the order of enumeration: no key twice, every key at its place.\<close>

definition ordered_keys :: "string list \<Rightarrow> bool" where
  "ordered_keys ks \<longleftrightarrow> distinct ks \<and> sorted_wrt ok_before ks"

text \<open>The tokens of the members of a rendered counter map.\<close>

fun member_tokens :: "(string \<times> int) list \<Rightarrow> token list" where
  "member_tokens [] = []"
| "member_tokens [(k, n)] = [TString k, Colon, TNumber n 0]"
| "member_tokens ((k, n) # kv # kvs) =
     TString k # Colon # TNumber n 0 # Comma # member_tokens (kv # kvs)"

text \<open>The characters that follow a count in a rendered counter map.\<close>

definition ends_number :: "char \<Rightarrow> bool" where
  "ends_number c \<longleftrightarrow> c = CHR '','' \<or> c = CHR ''}''"

text \<open>One member as \<open>JSON_stringify\<close> renders it.\<close>

definition print_member :: "string \<times> int \<Rightarrow> string" where
  "print_member kv = quote (fst kv) @ '':'' @ Number_toString (snd kv)"

text \<open>A counter map as the JSON object that its rendering denotes.\<close>

definition as_json :: "(string \<times> int) list \<Rightarrow> (string \<times> json) list" where
  "as_json counts = map (\<lambda>(k, n). (k, JNumber n 0)) counts"

text \<open>The integers that are counts of the model.\<close>

definition in_range :: "int \<Rightarrow> bool" where
  "in_range n \<longleftrightarrow> - max_exact \<le> n \<and> n \<le> max_exact"

text \<open>
  The invariant of the parser: every object, open or finished at the top level, has its
  keys in the order of enumeration.
\<close>

fun frame_ok :: "frame \<Rightarrow> bool" where
  "frame_ok (FArray elems) = True"
| "frame_ok (FObject obj k) = ordered_keys (map fst obj)"

fun value_ok :: "json \<Rightarrow> bool" where
  "value_ok (JObject kvs) = ordered_keys (map fst kvs)"
| "value_ok v = True"

fun state_ok :: "pstate \<Rightarrow> bool" where
  "state_ok (ExpectValue st) = list_all frame_ok st"
| "state_ok (AfterLBracket st) = list_all frame_ok st"
| "state_ok (AfterLBrace st) = list_all frame_ok st"
| "state_ok (ExpectKey obj st) = (ordered_keys (map fst obj) \<and> list_all frame_ok st)"
| "state_ok (ExpectColon obj k st) = (ordered_keys (map fst obj) \<and> list_all frame_ok st)"
| "state_ok (AfterElement elems st) = list_all frame_ok st"
| "state_ok (AfterMember obj st) = (ordered_keys (map fst obj) \<and> list_all frame_ok st)"
| "state_ok (Done v) = value_ok v"

text \<open>What \<open>getDebateCounts\<close> returns: keys in the order of enumeration, counts in range.\<close>

definition counter_map :: "(string \<times> int) list \<Rightarrow> bool" where
  "counter_map counts \<longleftrightarrow> ordered_keys (map fst counts) \<and> list_all in_range (map snd counts)"

section \<open>Properties of the string operations\<close>

lemma str_less_irrefl: "\<not> str_less a a"
  by (induction a) auto

lemma str_less_asym: "str_less a b \<Longrightarrow> \<not> str_less b a"
  by (induction a b rule: str_less.induct) auto

lemma str_less_total: "\<not> str_less a b \<Longrightarrow> \<not> str_less b a \<Longrightarrow> a = b"
  by (induction a b rule: str_less.induct) (auto simp: not_less)

lemma array_sort_pair:
  "array_sort [a, b] = (if str_less b a then [b, a] else [a, b])"
  by (simp add: array_sort_def)

lemma array_sort_swap: "array_sort [a, b] = array_sort [b, a]"
  using str_less_asym [of a b] str_less_total [of a b]
  by (auto simp: array_sort_pair)

lemma sessionId_swap: "sessionId d a b = sessionId d b a"
  by (simp add: sessionId_def array_sort_swap)

section \<open>Properties of the methods\<close>

lemma startDebate_guard:
  "selectedDebate s = None \<or> trim (debaterA s) = [] \<or> trim (debaterB s) = [] \<Longrightarrow>
   startDebate s = s"
  by (auto simp: startDebate_def split: option.splits)


lemma startDebate_storage:
  assumes "selectedDebate s = Some d" "trim (debaterA s) \<noteq> []" "trim (debaterB s) \<noteq> []"
  shows "localStorage (startDebate s) =
           (localStorage s)
             (''debaterA'' \<mapsto> debaterA s, ''debaterB'' \<mapsto> debaterB s,
              ''username'' \<mapsto> debaterA s, ''debateTopic'' \<mapsto> topic d,
              ''currentSessionId'' \<mapsto> sessionId d (debaterA s) (debaterB s))"
  using assms by (simp add: startDebate_def setItem_def navigate_def Let_def)

lemma startDebate_component:
  "debates (startDebate s) = debates s \<and> viewMode (startDebate s) = viewMode s \<and>
   selectedDebate (startDebate s) = selectedDebate s \<and>
   debaterA (startDebate s) = debaterA s \<and> debaterB (startDebate s) = debaterB s"
  by (simp add: startDebate_def setItem_def navigate_def Let_def split: option.splits)

section \<open>Decimal rendering and reading\<close>

lemma below_ten: "d < 10 \<Longrightarrow> d \<in> {0, 1, 2, 3, 4, 5, 6, 7, 8, 9::nat}"
  by auto

lemma digit_char_is_digit: "d < 10 \<Longrightarrow> is_digit (digit_char d)"
  by (drule below_ten) (auto simp: digit_char_def is_digit_def)

lemma digit_val_digit_char: "d < 10 \<Longrightarrow> digit_val (digit_char d) = d"
  by (drule below_ten) (auto simp: digit_char_def digit_val_def)

lemma digit_char_zero: "d < 10 \<Longrightarrow> digit_char d = CHR ''0'' \<longleftrightarrow> d = 0"
  by (drule below_ten) (auto simp: digit_char_def)

lemma show_nat_digits: "list_all is_digit (show_nat n)"
  by (induction n rule: show_nat.induct) (subst show_nat.simps, simp add: digit_char_is_digit)

lemma show_nat_not_Nil: "show_nat n \<noteq> []"
  by (subst show_nat.simps) simp

lemma read_nat_snoc: "read_nat (ds @ [c]) = 10 * read_nat ds + digit_val c"
  by (simp add: read_nat_def)

lemma read_nat_show_nat: "read_nat (show_nat n) = n"
proof (induction n rule: show_nat.induct)
  case (1 n)
  show ?case
  proof (cases "n < 10")
    case True
    then show ?thesis
      by (subst show_nat.simps) (simp add: read_nat_def digit_val_digit_char)
  next
    case False
    with 1 show ?thesis
      by (subst show_nat.simps) (simp add: read_nat_snoc digit_val_digit_char)
  qed
qed

lemma hd_show_nat: "0 < n \<Longrightarrow> hd (show_nat n) \<noteq> CHR ''0''"
proof (induction n rule: show_nat.induct)
  case (1 n)
  show ?case
  proof (cases "n < 10")
    case True
    with 1(2) show ?thesis
      by (subst show_nat.simps) (simp add: digit_char_zero)
  next
    case False
    then have "0 < n div 10" by simp
    with 1(1) False have "hd (show_nat (n div 10)) \<noteq> CHR ''0''" by simp
    with False show ?thesis
      by (subst show_nat.simps) (simp add: show_nat_not_Nil)
  qed
qed

lemma show_nat_zero: "show_nat 0 = ''0''"
  by (simp add: show_nat.simps digit_char_def)

lemma index_of_show_nat:
  "index_of (show_nat n) = (if n \<le> 4294967294 then Some n else None)"
  by (simp add: index_of_def show_nat_digits show_nat_not_Nil read_nat_show_nat)

lemma index_of_inj: "index_of a = Some n \<Longrightarrow> index_of b = Some n \<Longrightarrow> a = b"
  by (auto simp: index_of_def split: if_splits)

section \<open>The order of the keys of an object\<close>

lemma ordered_keys_Nil: "ordered_keys []"
  by (simp add: ordered_keys_def)

lemma keys_obj_update: "map fst (obj_update k v kvs) = map fst kvs"
  by (induction kvs) auto

lemma set_obj_insert: "set (obj_insert k v kvs) = insert (k, v) (set kvs)"
proof (induction kvs)
  case Nil
  show ?case by simp
next
  case (Cons kv kvs)
  obtain k' v' where kv: "kv = (k', v')" by (cases kv)
  show ?case
    by (cases "ok_before k' k") (auto simp: kv Cons.IH)
qed

lemma keys_obj_insert: "set (map fst (obj_insert k v kvs)) = insert k (set (map fst kvs))"
  by (simp add: set_obj_insert)

lemma ok_before_step:
  assumes "\<not> ok_before k' k" and "ok_before k' y"
  shows "ok_before k y"
proof (cases "index_of y")
  case None
  then show ?thesis by (simp add: ok_before_def)
next
  case (Some p)
  with assms(2) obtain m where m: "index_of k' = Some m" "m < p"
    by (auto simp: ok_before_def split: option.splits)
  from assms(1) m obtain n where n: "index_of k = Some n" "n \<le> m"
    by (auto simp: ok_before_def split: option.splits)
  with m Some show ?thesis by (simp add: ok_before_def)
qed

lemma ok_before_first:
  assumes "\<not> ok_before k' k" and "k \<noteq> k'"
  shows "ok_before k k'"
proof -
  from assms(1) obtain n where n: "index_of k = Some n"
    by (auto simp: ok_before_def split: option.splits)
  show ?thesis
  proof (cases "index_of k'")
    case None
    then show ?thesis by (simp add: ok_before_def)
  next
    case (Some m)
    with assms(1) n have "m \<ge> n" by (simp add: ok_before_def)
    moreover from n Some assms(2) have "n \<noteq> m" using index_of_inj by blast
    ultimately show ?thesis using n Some by (simp add: ok_before_def)
  qed
qed

lemma ordered_obj_insert:
  "ordered_keys (map fst kvs) \<Longrightarrow> k \<notin> set (map fst kvs) \<Longrightarrow>
   ordered_keys (map fst (obj_insert k v kvs))"
proof (induction kvs)
  case Nil
  then show ?case by (simp add: ordered_keys_def)
next
  case (Cons kv kvs)
  obtain k' v' where kv: "kv = (k', v')" by (cases kv)
  from Cons.prems kv have tail: "ordered_keys (map fst kvs)" and notin: "k \<notin> set (map fst kvs)"
    and ne: "k \<noteq> k'" and fresh: "k' \<notin> set (map fst kvs)"
    and before: "\<forall>y \<in> set (map fst kvs). ok_before k' y"
    by (auto simp: ordered_keys_def)
  show ?case
  proof (cases "ok_before k' k")
    case True
    from Cons.IH [OF tail notin] have ih: "ordered_keys (map fst (obj_insert k v kvs))" .
    from True before have "\<forall>y \<in> set (map fst (obj_insert k v kvs)). ok_before k' y"
      by (simp only: keys_obj_insert) auto
    moreover from fresh ne have "k' \<notin> set (map fst (obj_insert k v kvs))"
      by (simp only: keys_obj_insert) auto
    ultimately show ?thesis using ih True kv by (simp add: ordered_keys_def)
  next
    case False
    from False before have "\<forall>y \<in> set (map fst kvs). ok_before k y"
      using ok_before_step by blast
    with False ne Cons.prems kv ok_before_first [OF False ne] show ?thesis
      by (auto simp: ordered_keys_def)
  qed
qed

lemma ordered_obj_set:
  "ordered_keys (map fst kvs) \<Longrightarrow> ordered_keys (map fst (obj_set k v kvs))"
  by (simp add: obj_set_def keys_obj_update ordered_obj_insert)

lemma obj_insert_last:
  "\<forall>y \<in> set (map fst kvs). ok_before y k \<Longrightarrow> obj_insert k v kvs = kvs @ [(k, v)]"
  by (induction kvs) auto

lemma obj_set_last:
  assumes "ordered_keys (map fst kvs @ [k])"
  shows "obj_set k v kvs = kvs @ [(k, v)]"
proof -
  from assms have "k \<notin> set (map fst kvs)" and "\<forall>y \<in> set (map fst kvs). ok_before y k"
    by (auto simp: ordered_keys_def sorted_wrt_append)
  then show ?thesis by (simp add: obj_set_def obj_insert_last)
qed

lemma ordered_keys_butlast: "ordered_keys (ks @ [k]) \<Longrightarrow> ordered_keys ks"
  by (auto simp: ordered_keys_def sorted_wrt_append)

lemma map_of_obj_update:
  "k \<in> fst ` set kvs \<Longrightarrow> map_of (obj_update k v kvs) x = ((map_of kvs)(k \<mapsto> v)) x"
proof (induction kvs)
  case Nil
  then show ?case by simp
next
  case (Cons kv kvs)
  obtain k' v' where kv: "kv = (k', v')" by (cases kv)
  show ?case
  proof (cases "k' = k")
    case True
    then show ?thesis by (simp add: kv)
  next
    case False
    with Cons.prems kv have "k \<in> fst ` set kvs" by auto
    from Cons.IH [OF this] False show ?thesis by (auto simp: kv)
  qed
qed

lemma map_of_obj_insert:
  "k \<notin> fst ` set kvs \<Longrightarrow> map_of (obj_insert k v kvs) x = ((map_of kvs)(k \<mapsto> v)) x"
proof (induction kvs)
  case Nil
  then show ?case by simp
next
  case (Cons kv kvs)
  obtain k' v' where kv: "kv = (k', v')" by (cases kv)
  from Cons.prems kv have ne: "k' \<noteq> k" and "k \<notin> fst ` set kvs" by auto
  from Cons.IH [OF this(2)] ne show ?case by (auto simp: kv)
qed

lemma map_of_obj_set: "map_of (obj_set k v kvs) = (map_of kvs)(k \<mapsto> v)"
  by (rule ext) (simp add: obj_set_def map_of_obj_update map_of_obj_insert)

section \<open>A quoted string is read back\<close>

lemma hex_val_hex_digit:
  assumes "d < 16"
  shows "hex_val (hex_digit d) = Some d"
proof -
  have "\<forall>d \<in> set [0 ..< 16]. hex_val (hex_digit d) = Some d"
    by (simp add: hex_val_def hex_digit_def is_digit_def upt_rec)
  with assms show ?thesis by simp
qed

lemma hex4_control:
  assumes "n < 32"
  shows "hex4 (CHR ''0'') (CHR ''0'') (hex_digit (n div 16)) (hex_digit (n mod 16)) = Some n"
proof -
  from assms have "n div 16 < 16" by simp
  moreover have "n mod 16 < 16" by simp
  moreover have "hex_val (CHR ''0'') = Some 0" by (simp add: hex_val_def is_digit_def)
  ultimately show ?thesis by (simp add: hex4_def hex_val_hex_digit)
qed

lemma lex_string_quote_char: "lex_string (quote_char c @ rest) = push c (lex_string rest)"
proof -
  consider (named) "c \<in> {CHR 0x22, CHR 0x5C, CHR 0x08, CHR 0x0C, CHR 0x0A, CHR 0x0D, CHR 0x09}"
    | (control) "c \<notin> {CHR 0x22, CHR 0x5C, CHR 0x08, CHR 0x0C, CHR 0x0A, CHR 0x0D, CHR 0x09}"
        "(of_char c :: nat) < 32"
    | (plain) "c \<notin> {CHR 0x22, CHR 0x5C, CHR 0x08, CHR 0x0C, CHR 0x0A, CHR 0x0D, CHR 0x09}"
        "\<not> (of_char c :: nat) < 32"
    by blast
  then show ?thesis
  proof cases
    case named
    then show ?thesis by (auto simp: quote_char_def escape_char_def)
  next
    case control
    from control(2) have "(of_char c :: nat) < 256" by simp
    with control hex4_control [OF control(2)] show ?thesis
      by (simp add: quote_char_def)
  next
    case plain
    then show ?thesis by (simp add: quote_char_def)
  qed
qed

lemma lex_string_quoted:
  "lex_string (concat (map quote_char s) @ CHR 0x22 # rest) = Ok (s, rest)"
  by (induction s) (simp_all add: lex_string_quote_char push_def)

section \<open>A rendered count is read back\<close>

lemma ends_number_simps:
  "ends_number c \<Longrightarrow> \<not> is_digit c"
  "ends_number c \<Longrightarrow> c \<noteq> CHR ''.''"
  "ends_number c \<Longrightarrow> c \<noteq> CHR ''e''"
  "ends_number c \<Longrightarrow> c \<noteq> CHR ''E''"
  by (auto simp: ends_number_def is_digit_def)

lemma takeWhile_digits:
  "list_all is_digit ds \<Longrightarrow> \<not> is_digit c \<Longrightarrow> takeWhile is_digit (ds @ c # rest) = ds"
  by (induction ds) auto

lemma dropWhile_digits:
  "list_all is_digit ds \<Longrightarrow> \<not> is_digit c \<Longrightarrow> dropWhile is_digit (ds @ c # rest) = c # rest"
  by (induction ds) auto

lemma lex_fraction_none: "c \<noteq> CHR ''.'' \<Longrightarrow> lex_fraction (c # rest) = Some ([], c # rest)"
  by (simp add: lex_fraction_def)

lemma lex_exponent_none:
  "c \<noteq> CHR ''e'' \<Longrightarrow> c \<noteq> CHR ''E'' \<Longrightarrow> lex_exponent (c # rest) = Some (0, c # rest)"
  by (simp add: lex_exponent_def)

lemma lex_sign_digits:
  "list_all is_digit ds \<Longrightarrow> lex_sign (ds @ rest) = (False, ds @ rest) \<or> ds = []"
  by (cases ds) (auto simp: lex_sign_def is_digit_def split: list.splits)

lemma leading_zero_show_nat:
  "\<not> (hd (show_nat n) = CHR ''0'' \<and> 1 < length (show_nat n))"
proof (cases "n = 0")
  case True
  then show ?thesis by (simp add: show_nat_zero)
next
  case False
  then show ?thesis using hd_show_nat [of n] by simp
qed

lemma lex_digits:
  assumes "ends_number c"
  shows "lex_number (show_nat n @ c # rest) = Some ((int n, 0), c # rest)"
proof -
  let ?ds = "show_nat n"
  have sign: "lex_sign (?ds @ c # rest) = (False, ?ds @ c # rest)"
    using lex_sign_digits [OF show_nat_digits, of n "c # rest"] show_nat_not_Nil [of n] by simp
  have tw: "takeWhile is_digit (?ds @ c # rest) = ?ds"
    and dw: "dropWhile is_digit (?ds @ c # rest) = c # rest"
    using assms by (simp_all add: takeWhile_digits dropWhile_digits show_nat_digits ends_number_simps)
  show ?thesis
    using assms leading_zero_show_nat [of n]
    by (simp add: lex_number_def Let_def sign tw dw show_nat_not_Nil lex_fraction_none
        lex_exponent_none ends_number_simps read_nat_show_nat)
qed

lemma lex_minus_digits:
  assumes "ends_number c"
  shows "lex_number (CHR ''-'' # show_nat n @ c # rest) = Some ((- int n, 0), c # rest)"
proof -
  let ?ds = "show_nat n"
  have sign: "lex_sign (CHR ''-'' # ?ds @ c # rest) = (True, ?ds @ c # rest)"
    by (simp add: lex_sign_def)
  have tw: "takeWhile is_digit (?ds @ c # rest) = ?ds"
    and dw: "dropWhile is_digit (?ds @ c # rest) = c # rest"
    using assms by (simp_all add: takeWhile_digits dropWhile_digits show_nat_digits ends_number_simps)
  show ?thesis
    using assms leading_zero_show_nat [of n]
    by (simp add: lex_number_def Let_def sign tw dw show_nat_not_Nil lex_fraction_none
        lex_exponent_none ends_number_simps read_nat_show_nat)
qed

lemma lex_number_Number_toString:
  "ends_number c \<Longrightarrow> lex_number (Number_toString i @ c # rest) = Some ((i, 0), c # rest)"
  using lex_digits [of c "nat i" rest] lex_minus_digits [of c "nat (- i)" rest]
  by (simp add: Number_toString_def)

lemma digit_not_punctuation:
  "is_digit x \<Longrightarrow>
   \<not> is_json_ws x \<and> x \<noteq> CHR ''{'' \<and> x \<noteq> CHR ''}'' \<and> x \<noteq> CHR ''['' \<and> x \<noteq> CHR '']'' \<and>
   x \<noteq> CHR '':'' \<and> x \<noteq> CHR '','' \<and> x \<noteq> CHR 0x22"
proof -
  assume "is_digit x"
  then have "x = CHR ''0'' \<or> x = CHR ''1'' \<or> x = CHR ''2'' \<or> x = CHR ''3'' \<or> x = CHR ''4'' \<or>
      x = CHR ''5'' \<or> x = CHR ''6'' \<or> x = CHR ''7'' \<or> x = CHR ''8'' \<or> x = CHR ''9''"
    by (simp add: is_digit_def)
  then show ?thesis
    by (elim disjE) (simp_all add: is_json_ws_def)
qed

lemma lex_number_start:
  assumes "x = CHR ''-'' \<or> is_digit x"
  shows "lex (x # xs) =
    (case lex_number (x # xs) of
       None \<Rightarrow> Throw SyntaxError
     | Some ((m, e), rest) \<Rightarrow> emit (TNumber m e) (lex rest))"
proof (cases "is_digit x")
  case True
  from digit_not_punctuation [OF True] True show ?thesis
    by (subst lex.simps(2)) simp
next
  case False
  with assms have "x = CHR ''-''" by simp
  then show ?thesis
    by (subst lex.simps(2)) (simp add: is_json_ws_def)
qed

lemma Number_toString_start:
  "\<exists>x xs. Number_toString i = x # xs \<and> (x = CHR ''-'' \<or> is_digit x)"
proof (cases "i < 0")
  case True
  then show ?thesis by (simp add: Number_toString_def)
next
  case False
  obtain x xs where "show_nat (nat i) = x # xs"
    using show_nat_not_Nil [of "nat i"] by (cases "show_nat (nat i)") auto
  moreover with show_nat_digits [of "nat i"] have "is_digit x" by simp
  ultimately show ?thesis using False by (simp add: Number_toString_def)
qed

lemma lex_Number_toString:
  assumes "ends_number c"
  shows "lex (Number_toString i @ c # rest) = emit (TNumber i 0) (lex (c # rest))"
proof -
  obtain x xs where x: "Number_toString i = x # xs" "x = CHR ''-'' \<or> is_digit x"
    using Number_toString_start by blast
  have "lex (x # xs @ c # rest) =
    (case lex_number (x # xs @ c # rest) of
       None \<Rightarrow> Throw SyntaxError
     | Some ((m, e), rest) \<Rightarrow> emit (TNumber m e) (lex rest))"
    by (rule lex_number_start [OF x(2)])
  moreover have "lex_number (x # xs @ c # rest) = Some ((i, 0), c # rest)"
    using lex_number_Number_toString [OF assms, of i rest] x(1) by simp
  ultimately show ?thesis using x(1) by simp
qed

lemma lex_quote: "lex (quote k @ rest) = (case lex rest of Ok ts \<Rightarrow> Ok (TString k # ts) | r \<Rightarrow> r)"
proof -
  have "lex (quote k @ rest) = lex (CHR 0x22 # concat (map quote_char k) @ CHR 0x22 # rest)"
    by (simp add: quote_def)
  also have "\<dots> = emit (TString k) (lex rest)"
    by (subst lex.simps(2)) (simp add: is_json_ws_def lex_string_quoted)
  finally show ?thesis by (simp add: emit_def split: result.splits)
qed

section \<open>A rendered counter map is parsed back\<close>

lemma JSON_stringify_members:
  "JSON_stringify counts = CHR ''{'' # join '','' (map print_member counts) @ ''}''"
  by (simp add: JSON_stringify_def print_member_def [abs_def] case_prod_unfold)

lemma lex_punctuation:
  "lex (CHR ''{'' # cs) = emit LBrace (lex cs)"
  "lex (CHR ''}'' # cs) = emit RBrace (lex cs)"
  "lex (CHR '':'' # cs) = emit Colon (lex cs)"
  "lex (CHR '','' # cs) = emit Comma (lex cs)"
  by (subst lex.simps(2), simp add: is_json_ws_def)+

lemma lex_member:
  assumes "ends_number c"
  shows "lex (print_member (k, n) @ c # rest) =
    (case lex (c # rest) of Ok ts \<Rightarrow> Ok (TString k # Colon # TNumber n 0 # ts) | r \<Rightarrow> r)"
proof -
  have "lex (print_member (k, n) @ c # rest) =
      lex (quote k @ CHR '':'' # Number_toString n @ c # rest)"
    by (simp add: print_member_def)
  then show ?thesis
    by (simp add: lex_quote lex_punctuation lex_Number_toString [OF assms] emit_def
        split: result.splits)
qed

lemma lex_members:
  "lex (join '','' (map print_member counts) @ ''}'') = Ok (member_tokens counts @ [RBrace])"
proof (induction counts rule: member_tokens.induct)
  case 1
  show ?case by (simp add: lex_punctuation lex.simps(1) emit_def)
next
  case (2 k n)
  have "ends_number (CHR ''}'')" by (simp add: ends_number_def)
  from lex_member [OF this, of k n "[]"] show ?case
    by (simp add: lex_punctuation lex.simps(1) emit_def)
next
  case (3 k n kv kvs)
  have "ends_number (CHR '','')" by (simp add: ends_number_def)
  from lex_member [OF this, of k n "join '','' (map print_member (kv # kvs)) @ ''}''"] 3
  show ?case
    by (simp add: lex_punctuation emit_def)
qed

lemma lex_JSON_stringify:
  "lex (JSON_stringify counts) = Ok (LBrace # member_tokens counts @ [RBrace])"
  using lex_members [of counts]
  by (simp add: JSON_stringify_members lex_punctuation emit_def)

lemma run_members:
  "run (AfterMember obj []) (Comma # member_tokens (kv # kvs) @ [RBrace]) =
   Some (Done (JObject (foldl (\<lambda>acc (k, n). obj_set k (JNumber n 0) acc) obj (kv # kvs))))"
proof (induction kvs arbitrary: obj kv)
  case Nil
  obtain k n where "kv = (k, n)" by (cases kv)
  then show ?case by (simp add: expect_value_def)
next
  case (Cons kv' kvs)
  obtain k n where "kv = (k, n)" by (cases kv)
  with Cons [of "obj_set k (JNumber n 0) obj" kv'] show ?case
    by (simp add: expect_value_def)
qed

lemma run_object:
  "run (ExpectValue []) (LBrace # member_tokens counts @ [RBrace]) =
   Some (Done (JObject (foldl (\<lambda>acc (k, n). obj_set k (JNumber n 0) acc) [] counts)))"
proof (cases counts)
  case Nil
  then show ?thesis by (simp add: expect_value_def)
next
  case (Cons kv kvs)
  have "run (ExpectValue []) (LBrace # member_tokens (kv # kvs) @ [RBrace]) =
      run (AfterMember [] []) (Comma # member_tokens (kv # kvs) @ [RBrace])"
    by (cases kv; cases kvs) (simp_all add: expect_value_def obj_set_def)
  with Cons show ?thesis by (simp only: run_members)
qed

lemma foldl_obj_set_ordered:
  "ordered_keys (map fst counts) \<Longrightarrow>
   foldl (\<lambda>acc (k, n). obj_set k (JNumber n 0) acc) [] counts = as_json counts"
proof (induction counts rule: rev_induct)
  case Nil
  show ?case by (simp add: as_json_def)
next
  case (snoc kv counts)
  obtain k n where kv: "kv = (k, n)" by (cases kv)
  from snoc.prems have "ordered_keys (map fst counts)"
    by (simp add: ordered_keys_butlast)
  with snoc.IH have ih: "foldl (\<lambda>acc (k, n). obj_set k (JNumber n 0) acc) [] counts = as_json counts"
    by simp
  from snoc.prems kv have "ordered_keys (map fst (as_json counts) @ [k])"
    by (simp add: as_json_def case_prod_unfold comp_def)
  from obj_set_last [OF this] ih kv show ?case
    by (simp add: as_json_def)
qed

lemma as_members_as_json:
  "list_all in_range (map snd counts) \<Longrightarrow> as_members (as_json counts) = Some counts"
  by (induction counts) (auto simp: as_json_def num_int_def in_range_def)

lemma JSON_stringify_not_empty: "JSON_stringify counts \<noteq> []"
  by (simp add: JSON_stringify_def)

lemma JSON_parse_stringify:
  assumes "ordered_keys (map fst counts)"
  shows "JSON_parse (JSON_stringify counts) = Ok (JObject (as_json counts))"
  by (simp add: JSON_parse_def lex_JSON_stringify parse_tokens_def run_object
      foldl_obj_set_ordered [OF assms] del: run.simps)

section \<open>The parser keeps the keys in order\<close>

lemma deliver_ok: "list_all frame_ok st \<Longrightarrow> value_ok v \<Longrightarrow> state_ok (deliver v st)"
  by (induction v st rule: deliver.induct) (simp_all add: ordered_obj_set)

lemma scalar_ok: "scalar t = Some v \<Longrightarrow> value_ok v"
  by (cases t) auto

lemma expect_value_ok:
  "list_all frame_ok st \<Longrightarrow> expect_value st t = Some p \<Longrightarrow> state_ok p"
  by (auto simp: expect_value_def deliver_ok scalar_ok split: option.splits if_splits)

lemma step_ok: "state_ok p \<Longrightarrow> step p t = Some p' \<Longrightarrow> state_ok p'"
proof (induction p t rule: step.induct)
  case (1 st t)
  then show ?case by (simp add: expect_value_ok)
next
  case (2 st t)
  then show ?case
    using expect_value_ok [of "FArray [] # st" t p']
    by (auto simp: deliver_ok split: if_splits)
next
  case (3 st t)
  then show ?case
    by (auto simp: deliver_ok ordered_keys_Nil split: if_splits token.splits)
next
  case (4 obj st t)
  then show ?case by (auto split: token.splits)
next
  case (5 obj k st t)
  then show ?case by (auto split: if_splits)
next
  case (6 elems st t)
  then show ?case by (auto simp: deliver_ok split: if_splits)
next
  case (7 obj st t)
  then show ?case by (auto simp: deliver_ok split: if_splits)
next
  case (8 v t)
  then show ?case by simp
qed

lemma run_ok: "state_ok p \<Longrightarrow> run p ts = Some p' \<Longrightarrow> state_ok p'"
proof (induction ts arbitrary: p)
  case Nil
  then show ?case by simp
next
  case (Cons t ts)
  then show ?case by (auto split: option.splits dest: step_ok)
qed

lemma JSON_parse_ordered:
  assumes "JSON_parse src = Ok (JObject kvs)"
  shows "ordered_keys (map fst kvs)"
proof -
  from assms obtain ts where "run (ExpectValue []) ts = Some (Done (JObject kvs))"
    by (auto simp: JSON_parse_def parse_tokens_def split: result.splits option.splits pstate.splits)
  from run_ok [OF _ this] show ?thesis by simp
qed

lemma as_members_keys: "as_members kvs = Some counts \<Longrightarrow> map fst counts = map fst kvs"
  by (induction kvs arbitrary: counts) (auto split: option.splits)

lemma as_count_range: "as_count v = Some n \<Longrightarrow> in_range n"
  by (cases v) (auto simp: in_range_def split: option.splits if_splits)

lemma as_members_range: "as_members kvs = Some counts \<Longrightarrow> list_all in_range (map snd counts)"
proof (induction kvs arbitrary: counts)
  case Nil
  then show ?case by simp
next
  case (Cons kv kvs)
  obtain k v where kv: "kv = (k, v)" by (cases kv)
  from Cons.prems kv obtain n m where a: "as_count v = Some n" "as_members kvs = Some m"
    "counts = (k, n) # m"
    by (auto split: option.splits)
  from as_count_range [OF a(1)] Cons.IH [OF a(2)] a(3) show ?case by simp
qed

lemma getDebateCounts_counter_map:
  assumes "getDebateCounts s = Ok counts"
  shows "counter_map counts"
proof (cases "getItem ''debateCounts'' s")
  case None
  with assms show ?thesis by (simp add: getDebateCounts_def counter_map_def ordered_keys_Nil)
next
  case (Some raw)
  show ?thesis
  proof (cases "raw = []")
    case True
    with assms Some show ?thesis
      by (simp add: getDebateCounts_def counter_map_def ordered_keys_Nil)
  next
    case False
    with assms Some obtain v where v: "JSON_parse raw = Ok v" "as_counts v = Some counts"
      by (auto simp: getDebateCounts_def split: result.splits option.splits)
    then obtain kvs where kvs: "v = JObject kvs" "as_members kvs = Some counts"
      by (cases v) auto
    from v(1) kvs(1) have "ordered_keys (map fst kvs)" by (simp add: JSON_parse_ordered)
    with as_members_keys [OF kvs(2)] as_members_range [OF kvs(2)] show ?thesis
      by (simp add: counter_map_def)
  qed
qed

lemma getDebateCounts_storage:
  "localStorage s ''debateCounts'' = Some (JSON_stringify counts) \<Longrightarrow> counter_map counts \<Longrightarrow>
   getDebateCounts s = Ok counts"
  by (simp add: getDebateCounts_def getItem_def JSON_stringify_not_empty JSON_parse_stringify
      as_members_as_json counter_map_def)

lemma plus_one_in_range: "in_range n \<Longrightarrow> in_range (plus_one n)"
  by (auto simp: in_range_def plus_one_def max_exact_def)

lemma in_range_or_zero: "list_all in_range (map snd counts) \<Longrightarrow> in_range (or_zero (map_of counts k))"
proof (cases "map_of counts k")
  case None
  then show ?thesis by (simp add: in_range_def max_exact_def)
next
  case (Some n)
  assume "list_all in_range (map snd counts)"
  moreover from Some have "n \<in> set (map snd counts)"
    by (auto dest: map_of_SomeD simp: rev_image_eqI)
  ultimately have "in_range n" by (auto simp: list_all_iff)
  with Some show ?thesis by simp
qed

lemma values_obj_set:
  "list_all in_range (map snd counts) \<Longrightarrow> in_range n \<Longrightarrow>
   list_all in_range (map snd (obj_set k n counts))"
proof -
  have u: "list_all in_range (map snd kvs) \<Longrightarrow> in_range n \<Longrightarrow>
      list_all in_range (map snd (obj_update k n kvs))" for kvs
    by (induction kvs) auto
  have i: "list_all in_range (map snd kvs) \<Longrightarrow> in_range n \<Longrightarrow>
      list_all in_range (map snd (obj_insert k n kvs))" for kvs
    by (induction kvs) auto
  show "list_all in_range (map snd counts) \<Longrightarrow> in_range n \<Longrightarrow>
   list_all in_range (map snd (obj_set k n counts))"
    by (simp add: obj_set_def u i)
qed

lemma counter_map_obj_set:
  "counter_map counts \<Longrightarrow> in_range n \<Longrightarrow> counter_map (obj_set k n counts)"
  by (simp add: counter_map_def ordered_obj_set values_obj_set)

section \<open>Reading the counters after a write\<close>

lemma or_zero_eq: "or_zero x = (case x of None \<Rightarrow> 0 | Some n \<Rightarrow> n)"
  by (cases x) auto

lemma getDebateCounts_debates [simp]:
  "getDebateCounts (s\<lparr>debates := ds\<rparr>) = getDebateCounts s"
  by (simp add: getDebateCounts_def getItem_def)

lemma getDebateCounts_selectedDebate [simp]:
  "getDebateCounts (s\<lparr>selectedDebate := d\<rparr>) = getDebateCounts s"
  by (simp add: getDebateCounts_def getItem_def)

lemma getDebateCounts_written:
  "counter_map counts \<Longrightarrow>
   getDebateCounts (setItem ''debateCounts'' (JSON_stringify counts) s) = Ok counts"
  by (rule getDebateCounts_storage) (simp_all add: setItem_def)

lemma update_first_none: "\<forall>x \<in> set xs. \<not> P x \<Longrightarrow> update_first P f xs = xs"
  by (induction xs) auto

lemma incrementDebateCount_Ok:
  assumes "getDebateCounts s = Ok counts"
  shows "incrementDebateCount i s =
    Returns (setItem ''debateCounts''
        (JSON_stringify
          (obj_set (Number_toString i) (plus_one (or_zero (prop_get counts i))) counts)) s
      \<lparr>debates := update_first (\<lambda>d. debate_id d = i)
          (\<lambda>d. d\<lparr>selectionCount := plus_one (or_zero (prop_get counts i))\<rparr>) (debates s)\<rparr>)"
  using assms by (simp add: incrementDebateCount_def Let_def setItem_def)

lemma incrementDebateCount_read:
  assumes "getDebateCounts s = Ok counts" and "incrementDebateCount i s = Returns s'"
  shows "getDebateCounts s' =
    Ok (obj_set (Number_toString i) (plus_one (or_zero (prop_get counts i))) counts)"
proof -
  have cm: "counter_map counts" using assms(1) by (rule getDebateCounts_counter_map)
  then have "in_range (plus_one (or_zero (prop_get counts i)))"
    by (simp add: counter_map_def prop_get_def plus_one_in_range in_range_or_zero)
  with cm have "counter_map
      (obj_set (Number_toString i) (plus_one (or_zero (prop_get counts i))) counts)"
    by (rule counter_map_obj_set)
  from getDebateCounts_written [OF this] assms(2) show ?thesis
    by (auto simp: incrementDebateCount_Ok [OF assms(1)])
qed

lemma read_count_after_increment:
  assumes "read_count i s = Ok n"
  shows "\<exists>s'. incrementDebateCount i s = Returns s' \<and> read_count i s' = Ok (plus_one n)"
proof -
  from assms obtain counts where c: "getDebateCounts s = Ok counts"
    and n: "n = or_zero (prop_get counts i)"
    by (auto simp: read_count_def split: result.splits)
  obtain s' where s': "incrementDebateCount i s = Returns s'"
    by (simp add: incrementDebateCount_Ok [OF c])
  from incrementDebateCount_read [OF c s'] n have "read_count i s' = Ok (or_zero (Some (plus_one n)))"
    by (simp add: read_count_def prop_get_def map_of_obj_set)
  moreover have "or_zero (Some (plus_one n)) = plus_one n" by simp
  ultimately show ?thesis using s' by simp
qed

lemma openSetup_increment:
  "openSetup d s = incrementDebateCount (debate_id d) (s\<lparr>selectedDebate := Some d\<rparr>)"
  by (simp add: openSetup_def)

lemma read_count_selectedDebate [simp]:
  "read_count i (s\<lparr>selectedDebate := d\<rparr>) = read_count i s"
  by (simp add: read_count_def)

lemma read_count_after_openSetup:
  assumes "read_count (debate_id d) s = Ok n"
  shows "\<exists>s'. openSetup d s = Returns s' \<and> read_count (debate_id d) s' = Ok (plus_one n)"
  using read_count_after_increment [of "debate_id d" "s\<lparr>selectedDebate := Some d\<rparr>" n] assms
  by (simp add: openSetup_increment)

section \<open>Evaluation on given texts\<close>

text \<open>The equations that evaluate the model on a given stored text.\<close>

lemmas eval_json =
  getDebateCounts_def getItem_def initial_def JSON_parse_def lex.simps is_json_ws_def push_def
  emit_def is_digit_def lex_number_def lex_sign_def lex_fraction_def lex_exponent_def read_nat_def
  digit_val_def parse_tokens_def expect_value_def obj_set_def ok_before_def index_of_def
  show_nat.simps digit_char_def num_int_def max_exact_def Let_def

section \<open>The claims\<close>

text \<open>
  Claim C1 says that a \<^verbatim>\<open>debateCounts\<close> item that cannot be parsed is read like an
  absent one: the empty mapping, a selection count of 0 and no error. The code has no
  handler around \<^verbatim>\<open>JSON.parse\<close>. With the truncated text \<^verbatim>\<open>{"3":1\<close> stored, reading the
  counters throws a \<^verbatim>\<open>SyntaxError\<close>, which is not what an absent key gives, and the
  subscriber of \<^verbatim>\<open>ngOnInit\<close> and \<^verbatim>\<open>openSetup\<close> end with that error.
\<close>

theorem C1_unparsable_counters_counterexample:
  \<open>JSON_parse ''{"3":1'' = Throw SyntaxError \<and>
   getDebateCounts (initial Map.empty) = Ok [] \<and>
   getDebateCounts (initial [''debateCounts'' \<mapsto> ''{"3":1'']) = Throw SyntaxError \<and>
   read_count 3 (initial [''debateCounts'' \<mapsto> ''{"3":1'']) = Throw SyntaxError \<and>
   ngOnInit [\<lparr>debate_id = 3, topic = ''Cats''\<rparr>] (initial [''debateCounts'' \<mapsto> ''{"3":1'']) =
     Throws SyntaxError (initial [''debateCounts'' \<mapsto> ''{"3":1'']) \<and>
   openSetup \<lparr>debate_id = 3, topic = ''Cats''\<rparr> (initial [''debateCounts'' \<mapsto> ''{"3":1'']) =
     Throws SyntaxError
       ((initial [''debateCounts'' \<mapsto> ''{"3":1''])
          \<lparr>selectedDebate := Some \<lparr>debate_id = 3, topic = ''Cats''\<rparr>\<rparr>)\<close>
  by (simp add: read_count_def ngOnInit_def openSetup_def incrementDebateCount_def eval_json)

text \<open>
  Claim C1 as amended. A \<^verbatim>\<open>debateCounts\<close> item that is absent or the empty string is
  read as the empty mapping, with a count of 0 for every id and no error. A stored
  string that is not empty and that \<^verbatim>\<open>JSON.parse\<close> rejects is not read as absent: the
  error thrown by \<^verbatim>\<open>JSON.parse\<close> leaves \<^verbatim>\<open>getDebateCounts\<close>, the subscriber of \<^verbatim>\<open>ngOnInit\<close>
  ends with it and leaves the list as it was, and \<^verbatim>\<open>openSetup\<close> ends with it once the
  debate is selected, before anything is written.
\<close>

theorem C1_unreadable_counters:
  "(getItem ''debateCounts'' s = None \<or> getItem ''debateCounts'' s = Some [] \<longrightarrow>
      getDebateCounts s = Ok [] \<and> read_count i s = Ok 0) \<and>
   (getItem ''debateCounts'' s = Some raw \<and> raw \<noteq> [] \<and> JSON_parse raw = Throw e \<longrightarrow>
      getDebateCounts s = Throw e \<and> read_count i s = Throw e \<and>
      ngOnInit data s = Throws e s \<and>
      openSetup d s = Throws e (s\<lparr>selectedDebate := Some d\<rparr>))"
proof -
  have absent: "getDebateCounts s = Ok [] \<and> read_count i s = Ok 0"
    if "getItem ''debateCounts'' s = None \<or> getItem ''debateCounts'' s = Some []"
    using that by (auto simp: getDebateCounts_def read_count_def prop_get_def)
  have thrown: "getDebateCounts s = Throw e \<and> read_count i s = Throw e \<and>
      ngOnInit data s = Throws e s \<and>
      openSetup d s = Throws e (s\<lparr>selectedDebate := Some d\<rparr>)"
    if "getItem ''debateCounts'' s = Some raw" and "raw \<noteq> []" and "JSON_parse raw = Throw e"
  proof -
    from that have g: "getDebateCounts s = Throw e"
      by (simp add: getDebateCounts_def)
    then show ?thesis
      by (simp add: read_count_def ngOnInit_def openSetup_def incrementDebateCount_def)
  qed
  from absent thrown show ?thesis by blast
qed

theorem C1_unreadable_counters_witness:
  \<open>read_count 3 (initial Map.empty) = Ok 0 \<and>
   read_count 3 (initial [''debateCounts'' \<mapsto> []]) = Ok 0 \<and>
   ngOnInit [\<lparr>debate_id = 3, topic = ''Cats''\<rparr>] (initial [''debateCounts'' \<mapsto> ''{"3":1'']) =
     Throws SyntaxError (initial [''debateCounts'' \<mapsto> ''{"3":1'']) \<and>
   openSetup \<lparr>debate_id = 3, topic = ''Cats''\<rparr> (initial [''debateCounts'' \<mapsto> ''{"3":1'']) =
     Throws SyntaxError
       ((initial [''debateCounts'' \<mapsto> ''{"3":1''])
          \<lparr>selectedDebate := Some \<lparr>debate_id = 3, topic = ''Cats''\<rparr>\<rparr>)\<close>
proof -
  have raw: \<open>JSON_parse ''{"3":1'' = Throw SyntaxError\<close>
    by (simp add: eval_json)
  from C1_unreadable_counters [of "initial Map.empty" 3]
    C1_unreadable_counters [of \<open>initial [''debateCounts'' \<mapsto> []]\<close> 3]
    C1_unreadable_counters [of \<open>initial [''debateCounts'' \<mapsto> ''{"3":1'']\<close>
      3 \<open>''{"3":1''\<close> SyntaxError \<open>[\<lparr>debate_id = 3, topic = ''Cats''\<rparr>]\<close>
      \<open>\<lparr>debate_id = 3, topic = ''Cats''\<rparr>\<close>] raw
  show ?thesis by (simp add: getItem_def initial_def)
qed

text \<open>
  Claim C2 says that \<^verbatim>\<open>openSetup(d)\<close> raises the stored counter of \<^verbatim>\<open>d.id\<close> by one for
  every counter map. The counter is a JavaScript number: \<open>2\<^sup>5\<^sup>3 + 1\<close> is not one and the
  sum is rounded back to \<open>2\<^sup>5\<^sup>3\<close>. With \<^verbatim>\<open>{"3":9007199254740992}\<close> stored, the counter
  read after \<^verbatim>\<open>openSetup\<close> is the one read before.
\<close>

theorem C2_openSetup_increments_counterexample:
  \<open>read_count 3 (initial [''debateCounts'' \<mapsto> ''{"3":9007199254740992}'']) =
     Ok 9007199254740992 \<and>
   (case openSetup \<lparr>debate_id = 3, topic = ''Cats''\<rparr>
           (initial [''debateCounts'' \<mapsto> ''{"3":9007199254740992}'']) of
      Returns s1 \<Rightarrow> read_count 3 s1
    | Throws e s1 \<Rightarrow> Throw e
    | NotModelled \<Rightarrow> Unmodelled) = Ok 9007199254740992\<close>
  by (simp add: read_count_def openSetup_def incrementDebateCount_def prop_get_def plus_one_def
      setItem_def JSON_stringify_def quote_def quote_char_def Number_toString_def eval_json)

text \<open>
  Claim C2 as amended. For every debate \<open>d\<close> and every state whose stored counters can
  be read (the item absent, empty, or a JSON object whose values are integers from
  \<open>- 2\<^sup>5\<^sup>3\<close> to \<open>2\<^sup>5\<^sup>3\<close>), if the counter
  read for \<^verbatim>\<open>d.id\<close>, an absent one read as 0, is \<open>n\<close> and \<open>n\<close> is below \<open>2\<^sup>5\<^sup>3\<close>, then
  \<^verbatim>\<open>openSetup(d)\<close> returns and the counter read for \<^verbatim>\<open>d.id\<close> afterwards is \<open>n + 1\<close>; if
  \<open>n + 1\<close> is below \<open>2\<^sup>5\<^sup>3\<close> too, a second \<^verbatim>\<open>openSetup(d)\<close> returns and leaves \<open>n + 2\<close>.
\<close>

theorem C2_openSetup_increments:
  assumes "read_count (debate_id d) s = Ok n" and "n < max_exact"
  shows "\<exists>s1. openSetup d s = Returns s1 \<and> read_count (debate_id d) s1 = Ok (n + 1) \<and>
           (n + 1 < max_exact \<longrightarrow>
              (\<exists>s2. openSetup d s1 = Returns s2 \<and> read_count (debate_id d) s2 = Ok (n + 2)))"
proof -
  from read_count_after_openSetup [OF assms(1)] assms(2)
  obtain s1 where s1: "openSetup d s = Returns s1" "read_count (debate_id d) s1 = Ok (n + 1)"
    by (auto simp: plus_one_def)
  have "\<exists>s2. openSetup d s1 = Returns s2 \<and> read_count (debate_id d) s2 = Ok (n + 2)"
    if "n + 1 < max_exact"
    using read_count_after_openSetup [OF s1(2)] that by (auto simp: plus_one_def)
  with s1 show ?thesis by blast
qed

theorem C2_openSetup_increments_witness:
  \<open>openSetup \<lparr>debate_id = 3, topic = ''X''\<rparr> (initial Map.empty) =
     Returns
       \<lparr>debates = [], viewMode = Grid, selectedDebate = Some \<lparr>debate_id = 3, topic = ''X''\<rparr>,
        debaterA = ''Alice'', debaterB = ''Bob'',
        localStorage = [''debateCounts'' \<mapsto> ''{"3":1}''],
        effects = [SetItem ''debateCounts'' ''{"3":1}'']\<rparr> \<and>
   openSetup \<lparr>debate_id = 3, topic = ''X''\<rparr>
       \<lparr>debates = [], viewMode = Grid, selectedDebate = Some \<lparr>debate_id = 3, topic = ''X''\<rparr>,
        debaterA = ''Alice'', debaterB = ''Bob'',
        localStorage = [''debateCounts'' \<mapsto> ''{"3":1}''],
        effects = [SetItem ''debateCounts'' ''{"3":1}'']\<rparr> =
     Returns
       \<lparr>debates = [], viewMode = Grid, selectedDebate = Some \<lparr>debate_id = 3, topic = ''X''\<rparr>,
        debaterA = ''Alice'', debaterB = ''Bob'',
        localStorage = [''debateCounts'' \<mapsto> ''{"3":2}''],
        effects = [SetItem ''debateCounts'' ''{"3":1}'', SetItem ''debateCounts'' ''{"3":2}'']\<rparr> \<and>
   read_count 3 (initial Map.empty) = Ok 0 \<and>
   read_count 3
       \<lparr>debates = [], viewMode = Grid, selectedDebate = Some \<lparr>debate_id = 3, topic = ''X''\<rparr>,
        debaterA = ''Alice'', debaterB = ''Bob'',
        localStorage = [''debateCounts'' \<mapsto> ''{"3":1}''],
        effects = [SetItem ''debateCounts'' ''{"3":1}'']\<rparr> = Ok 1 \<and>
   read_count 3
       \<lparr>debates = [], viewMode = Grid, selectedDebate = Some \<lparr>debate_id = 3, topic = ''X''\<rparr>,
        debaterA = ''Alice'', debaterB = ''Bob'',
        localStorage = [''debateCounts'' \<mapsto> ''{"3":2}''],
        effects = [SetItem ''debateCounts'' ''{"3":1}'', SetItem ''debateCounts'' ''{"3":2}'']\<rparr> =
     Ok 2 \<and>
   (\<exists>s1. openSetup \<lparr>debate_id = 3, topic = ''X''\<rparr> (initial Map.empty) = Returns s1 \<and>
      read_count 3 s1 = Ok 1 \<and>
      (\<exists>s2. openSetup \<lparr>debate_id = 3, topic = ''X''\<rparr> s1 = Returns s2 \<and>
         read_count 3 s2 = Ok 2))\<close>
proof -
  have zero: "read_count (debate_id \<lparr>debate_id = 3, topic = ''X''\<rparr>) (initial Map.empty) = Ok 0"
    by (simp add: read_count_def getDebateCounts_def getItem_def initial_def prop_get_def)
  have small: "(0::int) < max_exact" "(0::int) + 1 < max_exact"
    by (simp_all add: max_exact_def)
  have twice: "\<exists>s1. openSetup \<lparr>debate_id = 3, topic = ''X''\<rparr> (initial Map.empty) = Returns s1 \<and>
      read_count 3 s1 = Ok 1 \<and>
      (\<exists>s2. openSetup \<lparr>debate_id = 3, topic = ''X''\<rparr> s1 = Returns s2 \<and>
         read_count 3 s2 = Ok 2)"
    using C2_openSetup_increments [OF zero small(1)] small(2) by simp
  show ?thesis
    by (simp only: twice simp_thms)
      (simp add: read_count_def openSetup_def incrementDebateCount_def prop_get_def plus_one_def
        setItem_def JSON_stringify_def quote_def quote_char_def Number_toString_def eval_json)
qed

text \<open>
  Claim C3. For a selected debate and two names that are not blank, \<^verbatim>\<open>startDebate\<close>
  stores the same \<^verbatim>\<open>currentSessionId\<close> whichever of the two names is \<^verbatim>\<open>debaterA\<close> and
  whichever is \<^verbatim>\<open>debaterB\<close>; for the debate with id 5 and the names Alice and Bob, in
  either order, the identifier stored is \<^verbatim>\<open>5_Alice_Bob\<close>.
\<close>

theorem C3_session_id_symmetric:
  assumes "selectedDebate s1 = Some d" and "selectedDebate s2 = Some d"
    and "debaterA s2 = debaterB s1" and "debaterB s2 = debaterA s1"
    and "trim (debaterA s1) \<noteq> []" and "trim (debaterB s1) \<noteq> []"
  shows "getItem ''currentSessionId'' (startDebate s1) =
           getItem ''currentSessionId'' (startDebate s2) \<and>
         getItem ''currentSessionId'' (startDebate s1) =
           Some (sessionId d (debaterA s1) (debaterB s1)) \<and>
         (debate_id d = 5 \<and> {debaterA s1, debaterB s1} = {''Alice'', ''Bob''} \<longrightarrow>
            getItem ''currentSessionId'' (startDebate s1) = Some ''5_Alice_Bob'' \<and>
            getItem ''currentSessionId'' (startDebate s2) = Some ''5_Alice_Bob'')"
proof -
  have one: "getItem ''currentSessionId'' (startDebate s1) =
      Some (sessionId d (debaterA s1) (debaterB s1))"
    using assms by (simp add: getItem_def startDebate_storage)
  have two: "getItem ''currentSessionId'' (startDebate s2) =
      Some (sessionId d (debaterB s1) (debaterA s1))"
    using assms by (simp add: getItem_def startDebate_storage)
  have same: "getItem ''currentSessionId'' (startDebate s1) =
      getItem ''currentSessionId'' (startDebate s2)"
    unfolding one two by (simp only: sessionId_swap [of d "debaterB s1" "debaterA s1"])
  have ab: "sessionId d ''Alice'' ''Bob'' = ''5_Alice_Bob''" if "debate_id d = 5"
    using that by (simp add: sessionId_def Number_toString_def show_nat.simps digit_char_def array_sort_pair)
  have five: "getItem ''currentSessionId'' (startDebate s1) = Some ''5_Alice_Bob''"
    if "debate_id d = 5" and "{debaterA s1, debaterB s1} = {''Alice'', ''Bob''}"
  proof -
    from that(2) consider "debaterA s1 = ''Alice'' \<and> debaterB s1 = ''Bob''"
      | "debaterA s1 = ''Bob'' \<and> debaterB s1 = ''Alice''"
      by (auto simp only: doubleton_eq_iff)
    then show ?thesis
    proof cases
      case 1
      then show ?thesis unfolding one using ab [OF that(1)] by simp
    next
      case 2
      then show ?thesis unfolding one
        using ab [OF that(1)] sessionId_swap [of d "''Bob''" "''Alice''"] by (simp only:)
    qed
  qed
  from one same five show ?thesis by (simp only:) blast
qed

theorem C3_session_id_symmetric_witness:
  "getItem ''currentSessionId''
     (startDebate ((initial Map.empty)
        \<lparr>selectedDebate := Some \<lparr>debate_id = 5, topic = ''Cats''\<rparr>\<rparr>)) = Some ''5_Alice_Bob'' \<and>
   getItem ''currentSessionId''
     (startDebate ((initial Map.empty)
        \<lparr>selectedDebate := Some \<lparr>debate_id = 5, topic = ''Cats''\<rparr>,
         debaterA := ''Bob'', debaterB := ''Alice''\<rparr>)) = Some ''5_Alice_Bob''"
  using C3_session_id_symmetric
    [of "(initial Map.empty)\<lparr>selectedDebate := Some \<lparr>debate_id = 5, topic = ''Cats''\<rparr>\<rparr>"
        "\<lparr>debate_id = 5, topic = ''Cats''\<rparr>"
        "(initial Map.empty)\<lparr>selectedDebate := Some \<lparr>debate_id = 5, topic = ''Cats''\<rparr>,
           debaterA := ''Bob'', debaterB := ''Alice''\<rparr>"]
  by (simp add: initial_def trim_def is_white_space_def)

text \<open>
  Claim C4. When no debate is selected, or \<^verbatim>\<open>debaterA\<close> or \<^verbatim>\<open>debaterB\<close> is empty once
  trimmed, \<^verbatim>\<open>startDebate\<close> returns without effect: the component, the storage and the
  log of calls (no \<^verbatim>\<open>setItem\<close>, no \<^verbatim>\<open>navigate\<close>) are what they were.
\<close>

theorem C4_startDebate_guard:
  assumes "selectedDebate s = None \<or> trim (debaterA s) = [] \<or> trim (debaterB s) = []"
  shows "startDebate s = s \<and> effects (startDebate s) = effects s \<and>
         localStorage (startDebate s) = localStorage s"
  using startDebate_guard [OF assms] by simp

theorem C4_startDebate_guard_witness:
  "effects (startDebate ((initial Map.empty)
      \<lparr>selectedDebate := Some \<lparr>debate_id = 5, topic = ''Cats''\<rparr>,
       debaterA := [CHR 0x20, CHR 0x09, CHR 0xA0]\<rparr>)) = [] \<and>
   startDebate (initial Map.empty) = initial Map.empty"
  using C4_startDebate_guard
    [of "(initial Map.empty)\<lparr>selectedDebate := Some \<lparr>debate_id = 5, topic = ''Cats''\<rparr>,
       debaterA := [CHR 0x20, CHR 0x09, CHR 0xA0]\<rparr>"]
    C4_startDebate_guard [of "initial Map.empty"]
  by (simp add: initial_def trim_def is_white_space_def)

text \<open>
  Claim C5 says that every debate of the fetched list is enriched with the stored
  counter of its id, or with 0 when none is stored or the storage cannot be parsed. With
  the truncated text \<^verbatim>\<open>{"3":1\<close> stored, the subscriber ends with a \<^verbatim>\<open>SyntaxError\<close> and the
  component's list stays empty: no debate with a selection count of 0 is placed in it.
\<close>

theorem C5_enrichment_counterexample:
  \<open>ngOnInit [\<lparr>debate_id = 3, topic = ''Cats''\<rparr>] (initial [''debateCounts'' \<mapsto> ''{"3":1'']) =
     Throws SyntaxError (initial [''debateCounts'' \<mapsto> ''{"3":1'']) \<and>
   debates (initial [''debateCounts'' \<mapsto> ''{"3":1'']) = [] \<and>
   ngOnInit [\<lparr>debate_id = 3, topic = ''Cats''\<rparr>] (initial [''debateCounts'' \<mapsto> ''{"3":1'']) \<noteq>
     Returns ((initial [''debateCounts'' \<mapsto> ''{"3":1''])
       \<lparr>debates := [\<lparr>debate_id = 3, topic = ''Cats'', selectionCount = 0\<rparr>]\<rparr>)\<close>
  by (simp add: ngOnInit_def eval_json)

text \<open>
  Claim C5 as amended. For every fetched list and every state whose stored counters can
  be read (the item absent, empty, or a JSON object whose values are integers from
  \<open>- 2\<^sup>5\<^sup>3\<close> to \<open>2\<^sup>5\<^sup>3\<close>), the subscriber
  of \<^verbatim>\<open>ngOnInit\<close> replaces the component's list by the fetched debates in their order, each
  with the \<^verbatim>\<open>selectionCount\<close> that is the stored counter of its id, or 0 when none is
  stored for that id.
\<close>

theorem C5_enrichment:
  assumes "getDebateCounts s = Ok counts"
  shows "ngOnInit data s =
           Returns (s\<lparr>debates :=
             map (\<lambda>d. \<lparr>debate_id = debate_id d, topic = topic d,
                        selectionCount =
                          (case prop_get counts (debate_id d) of None \<Rightarrow> 0 | Some n \<Rightarrow> n)\<rparr>)
               data\<rparr>) \<and>
         (\<forall>d \<in> set data.
            read_count (debate_id d) s =
              Ok (case prop_get counts (debate_id d) of None \<Rightarrow> 0 | Some n \<Rightarrow> n))"
  using assms by (simp add: ngOnInit_def read_count_def or_zero_eq)

theorem C5_enrichment_witness:
  \<open>ngOnInit [\<lparr>debate_id = 3, topic = ''A''\<rparr>, \<lparr>debate_id = 4, topic = ''B''\<rparr>,
             \<lparr>debate_id = 7, topic = ''C''\<rparr>]
     (initial [''debateCounts'' \<mapsto> ''{"7":5, "3":2}'']) =
   Returns ((initial [''debateCounts'' \<mapsto> ''{"7":5, "3":2}''])
     \<lparr>debates := [\<lparr>debate_id = 3, topic = ''A'', selectionCount = 2\<rparr>,
                  \<lparr>debate_id = 4, topic = ''B'', selectionCount = 0\<rparr>,
                  \<lparr>debate_id = 7, topic = ''C'', selectionCount = 5\<rparr>]\<rparr>)\<close>
proof -
  have stored: \<open>getDebateCounts (initial [''debateCounts'' \<mapsto> ''{"7":5, "3":2}'']) =
      Ok [(''3'', 2), (''7'', 5)]\<close>
    by (simp add: eval_json)
  from C5_enrichment [OF stored,
      of \<open>[\<lparr>debate_id = 3, topic = ''A''\<rparr>, \<lparr>debate_id = 4, topic = ''B''\<rparr>,
           \<lparr>debate_id = 7, topic = ''C''\<rparr>]\<close>]
  show ?thesis
    by (simp add: prop_get_def Number_toString_def show_nat.simps digit_char_def)
qed



text \<open>
  Claim C7. \<^verbatim>\<open>closeSetup\<close> sets the selected debate to none and changes nothing else:
  every other field of the component is kept, the storage (the \<^verbatim>\<open>debateCounts\<close> item
  in particular) is kept, and no call is made on the storage or the router.
\<close>

theorem C7_closeSetup_frame:
  "selectedDebate (closeSetup s) = None \<and>
   debates (closeSetup s) = debates s \<and> viewMode (closeSetup s) = viewMode s \<and>
   debaterA (closeSetup s) = debaterA s \<and> debaterB (closeSetup s) = debaterB s \<and>
   localStorage (closeSetup s) = localStorage s \<and>
   getItem ''debateCounts'' (closeSetup s) = getItem ''debateCounts'' s \<and>
   effects (closeSetup s) = effects s"
  by (simp add: closeSetup_def getItem_def)

theorem C7_closeSetup_frame_witness:
  \<open>getItem ''debateCounts''
     (closeSetup ((initial [''debateCounts'' \<mapsto> ''{"3":2}''])
        \<lparr>selectedDebate := Some \<lparr>debate_id = 3, topic = ''X''\<rparr>\<rparr>)) = Some ''{"3":2}'' \<and>
   selectedDebate
     (closeSetup ((initial [''debateCounts'' \<mapsto> ''{"3":2}''])
        \<lparr>selectedDebate := Some \<lparr>debate_id = 3, topic = ''X''\<rparr>\<rparr>)) = None\<close>
  using C7_closeSetup_frame
    [of \<open>(initial [''debateCounts'' \<mapsto> ''{"3":2}''])
        \<lparr>selectedDebate := Some \<lparr>debate_id = 3, topic = ''X''\<rparr>\<rparr>\<close>]
  by (simp add: getItem_def initial_def)

text \<open>
  Claim C8. \<^verbatim>\<open>setViewMode('list')\<close> followed by \<^verbatim>\<open>setViewMode('grid')\<close> leaves the state
  that \<^verbatim>\<open>setViewMode('grid')\<close> alone leaves; a second call with the same mode changes
  nothing, and of two calls the last one decides the view mode and the state.
\<close>

theorem C8_setViewMode_collapse:
  "setViewMode Grid (setViewMode ListView s) = setViewMode Grid s \<and>
   setViewMode m (setViewMode m s) = setViewMode m s \<and>
   setViewMode m' (setViewMode m s) = setViewMode m' s \<and>
   viewMode (setViewMode m' (setViewMode m s)) = m'"
  by (simp add: setViewMode_def)

theorem C8_setViewMode_collapse_witness:
  "setViewMode Grid (setViewMode ListView (initial Map.empty)) = initial Map.empty \<and>
   viewMode (setViewMode ListView (setViewMode ListView (initial Map.empty))) = ListView"
  using C8_setViewMode_collapse [of "initial Map.empty" ListView ListView]
  by (simp add: setViewMode_def initial_def)

text \<open>
  Claim C9. \<^verbatim>\<open>startDebate\<close> trims the names only to test them. After a successful call
  the items \<^verbatim>\<open>debaterA\<close>, \<^verbatim>\<open>debaterB\<close> and \<^verbatim>\<open>username\<close> hold the fields as they are,
  surrounding white space included, and \<^verbatim>\<open>currentSessionId\<close> is built from the same
  untrimmed values.
\<close>

theorem C9_startDebate_stores_raw_names:
  assumes "selectedDebate s = Some d" and "trim (debaterA s) \<noteq> []"
    and "trim (debaterB s) \<noteq> []"
  shows "getItem ''debaterA'' (startDebate s) = Some (debaterA s) \<and>
         getItem ''debaterB'' (startDebate s) = Some (debaterB s) \<and>
         getItem ''username'' (startDebate s) = Some (debaterA s) \<and>
         getItem ''currentSessionId'' (startDebate s) =
           Some (Number_toString (debate_id d) @ ''_'' @
                 join ''_'' (array_sort [debaterA s, debaterB s]))"
  using assms by (simp add: getItem_def startDebate_storage sessionId_def)

theorem C9_startDebate_stores_raw_names_witness:
  "trim '' Alice '' = ''Alice'' \<and>
   getItem ''debaterA'' (startDebate ((initial Map.empty)
      \<lparr>selectedDebate := Some \<lparr>debate_id = 5, topic = ''Cats''\<rparr>,
       debaterA := '' Alice '', debaterB := ''Bob  ''\<rparr>)) = Some '' Alice '' \<and>
   getItem ''username'' (startDebate ((initial Map.empty)
      \<lparr>selectedDebate := Some \<lparr>debate_id = 5, topic = ''Cats''\<rparr>,
       debaterA := '' Alice '', debaterB := ''Bob  ''\<rparr>)) = Some '' Alice '' \<and>
   getItem ''currentSessionId'' (startDebate ((initial Map.empty)
      \<lparr>selectedDebate := Some \<lparr>debate_id = 5, topic = ''Cats''\<rparr>,
       debaterA := '' Alice '', debaterB := ''Bob  ''\<rparr>)) = Some ''5_ Alice _Bob  ''"
  using C9_startDebate_stores_raw_names
    [of "(initial Map.empty)\<lparr>selectedDebate := Some \<lparr>debate_id = 5, topic = ''Cats''\<rparr>,
           debaterA := '' Alice '', debaterB := ''Bob  ''\<rparr>"
        "\<lparr>debate_id = 5, topic = ''Cats''\<rparr>"]
  by (simp add: initial_def trim_def is_white_space_def Number_toString_def
      show_nat.simps digit_char_def array_sort_pair)

text \<open>
  Claim C10 says that for every debate \<open>d\<close> whose id is the id of no entry of the
  component's list, \<^verbatim>\<open>openSetup(d)\<close> writes the incremented counter of \<^verbatim>\<open>d.id\<close> to the
  stored map. With the truncated text \<^verbatim>\<open>{"3":1\<close> stored, \<^verbatim>\<open>openSetup\<close> selects the debate
  and ends with a \<^verbatim>\<open>SyntaxError\<close> before any write. With \<^verbatim>\<open>{"9":9007199254740992}\<close>
  stored, the counter written for the id 9 is the one that was stored: \<open>2\<^sup>5\<^sup>3 + 1\<close> is
  rounded back to \<open>2\<^sup>5\<^sup>3\<close>.
\<close>

theorem C10_openSetup_unlisted_counterexample:
  \<open>debate_id \<lparr>debate_id = 9, topic = ''New''\<rparr> \<notin>
     debate_id ` set (debates ((initial [''debateCounts'' \<mapsto> ''{"3":1''])
        \<lparr>debates := [\<lparr>debate_id = 3, topic = ''A'', selectionCount = 2\<rparr>]\<rparr>)) \<and>
   openSetup \<lparr>debate_id = 9, topic = ''New''\<rparr>
     ((initial [''debateCounts'' \<mapsto> ''{"3":1''])
        \<lparr>debates := [\<lparr>debate_id = 3, topic = ''A'', selectionCount = 2\<rparr>]\<rparr>) =
   Throws SyntaxError
     \<lparr>debates = [\<lparr>debate_id = 3, topic = ''A'', selectionCount = 2\<rparr>], viewMode = Grid,
      selectedDebate = Some \<lparr>debate_id = 9, topic = ''New''\<rparr>,
      debaterA = ''Alice'', debaterB = ''Bob'',
      localStorage = [''debateCounts'' \<mapsto> ''{"3":1''], effects = []\<rparr> \<and>
   debate_id \<lparr>debate_id = 9, topic = ''New''\<rparr> \<notin>
     debate_id ` set (debates (initial [''debateCounts'' \<mapsto> ''{"9":9007199254740992}''])) \<and>
   read_count 9 (initial [''debateCounts'' \<mapsto> ''{"9":9007199254740992}'']) =
     Ok 9007199254740992 \<and>
   openSetup \<lparr>debate_id = 9, topic = ''New''\<rparr>
     (initial [''debateCounts'' \<mapsto> ''{"9":9007199254740992}'']) =
   Returns
     \<lparr>debates = [], viewMode = Grid,
      selectedDebate = Some \<lparr>debate_id = 9, topic = ''New''\<rparr>,
      debaterA = ''Alice'', debaterB = ''Bob'',
      localStorage = [''debateCounts'' \<mapsto> ''{"9":9007199254740992}''],
      effects = [SetItem ''debateCounts'' ''{"9":9007199254740992}'']\<rparr>\<close>
  by (simp add: read_count_def openSetup_def incrementDebateCount_def prop_get_def plus_one_def
      setItem_def JSON_stringify_def quote_def quote_char_def Number_toString_def eval_json)

text \<open>
  Claim C10 as amended. For every debate \<open>d\<close> whose id is the id of no entry of the
  component's list and every state whose stored counters can be read (the item absent,
  empty, or a JSON object whose values are integers from \<open>- 2\<^sup>5\<^sup>3\<close> to \<open>2\<^sup>5\<^sup>3\<close>),
  \<^verbatim>\<open>openSetup(d)\<close> returns, selects \<open>d\<close> and writes, in one \<^verbatim>\<open>setItem\<close> call on the
  \<^verbatim>\<open>debateCounts\<close> item, the counter map in which the counter of \<^verbatim>\<open>d.id\<close> is the one read
  before (an absent one read as 0) plus one when that is below \<open>2\<^sup>5\<^sup>3\<close>, and \<open>2\<^sup>5\<^sup>3\<close>
  itself otherwise; the list, every \<^verbatim>\<open>selectionCount\<close> in it included, and the other fields
  are what they were.
\<close>

theorem C10_openSetup_unlisted:
  assumes "getDebateCounts s = Ok counts"
    and "debate_id d \<notin> debate_id ` set (debates s)"
  shows "\<exists>s'. openSetup d s = Returns s' \<and>
           debates s' = debates s \<and> selectedDebate s' = Some d \<and>
           viewMode s' = viewMode s \<and> debaterA s' = debaterA s \<and> debaterB s' = debaterB s \<and>
           effects s' = effects s @
             [SetItem ''debateCounts''
               (JSON_stringify (obj_set (Number_toString (debate_id d))
                  (plus_one (or_zero (prop_get counts (debate_id d)))) counts))] \<and>
           localStorage s' = (localStorage s)
             (''debateCounts'' \<mapsto>
               JSON_stringify (obj_set (Number_toString (debate_id d))
                 (plus_one (or_zero (prop_get counts (debate_id d)))) counts)) \<and>
           getDebateCounts s' =
             Ok (obj_set (Number_toString (debate_id d))
                  (plus_one (or_zero (prop_get counts (debate_id d)))) counts) \<and>
           read_count (debate_id d) s' = Ok (plus_one (or_zero (prop_get counts (debate_id d)))) \<and>
           (or_zero (prop_get counts (debate_id d)) < max_exact \<longrightarrow>
              read_count (debate_id d) s' = Ok (or_zero (prop_get counts (debate_id d)) + 1))"
proof -
  let ?s = "s\<lparr>selectedDebate := Some d\<rparr>"
  let ?n = "plus_one (or_zero (prop_get counts (debate_id d)))"
  from assms(1) have c: "getDebateCounts ?s = Ok counts" by simp
  from assms(2) have "\<forall>x \<in> set (debates ?s). \<not> debate_id x = debate_id d"
    by (force simp: image_iff)
  then have same: "update_first (\<lambda>x. debate_id x = debate_id d) (\<lambda>x. x\<lparr>selectionCount := ?n\<rparr>)
      (debates ?s) = debates ?s"
    by (rule update_first_none)
  obtain s' where s': "openSetup d s = Returns s'"
    by (simp add: openSetup_def incrementDebateCount_Ok [OF c])
  then have inc: "incrementDebateCount (debate_id d) ?s = Returns s'"
    by (simp add: openSetup_def)
  from incrementDebateCount_read [OF c inc]
  have r: "getDebateCounts s' = Ok (obj_set (Number_toString (debate_id d)) ?n counts)" .
  then have rc: "read_count (debate_id d) s' = Ok ?n"
    by (simp add: read_count_def prop_get_def map_of_obj_set)
  from inc same have fields: "debates s' = debates s \<and> selectedDebate s' = Some d \<and>
      viewMode s' = viewMode s \<and> debaterA s' = debaterA s \<and> debaterB s' = debaterB s \<and>
      effects s' = effects s @
        [SetItem ''debateCounts''
          (JSON_stringify (obj_set (Number_toString (debate_id d)) ?n counts))] \<and>
      localStorage s' = (localStorage s)
        (''debateCounts'' \<mapsto>
          JSON_stringify (obj_set (Number_toString (debate_id d)) ?n counts))"
    by (auto simp: incrementDebateCount_Ok [OF c] setItem_def)
  from s' r rc fields show ?thesis by (auto simp: plus_one_def)
qed

theorem C10_openSetup_unlisted_witness:
  \<open>openSetup \<lparr>debate_id = 9, topic = ''New''\<rparr>
     ((initial [''debateCounts'' \<mapsto> ''{"3":2}''])
        \<lparr>debates := [\<lparr>debate_id = 3, topic = ''A'', selectionCount = 2\<rparr>]\<rparr>) =
   Returns
     \<lparr>debates = [\<lparr>debate_id = 3, topic = ''A'', selectionCount = 2\<rparr>], viewMode = Grid,
      selectedDebate = Some \<lparr>debate_id = 9, topic = ''New''\<rparr>,
      debaterA = ''Alice'', debaterB = ''Bob'',
      localStorage = [''debateCounts'' \<mapsto> ''{"3":2,"9":1}''],
      effects = [SetItem ''debateCounts'' ''{"3":2,"9":1}'']\<rparr>\<close>
proof -
  let ?s = \<open>(initial [''debateCounts'' \<mapsto> ''{"3":2}''])
        \<lparr>debates := [\<lparr>debate_id = 3, topic = ''A'', selectionCount = 2\<rparr>]\<rparr>\<close>
  have stored: "getDebateCounts ?s = Ok [(''3'', 2)]"
    by (simp add: eval_json)
  have unlisted: "debate_id \<lparr>debate_id = 9, topic = ''New''\<rparr> \<notin> debate_id ` set (debates ?s)"
    by (simp add: initial_def)
  from C10_openSetup_unlisted [OF stored unlisted] obtain s' where
    s': "openSetup \<lparr>debate_id = 9, topic = ''New''\<rparr> ?s = Returns s'" by blast
  then show ?thesis
    by (simp add: openSetup_def incrementDebateCount_def prop_get_def plus_one_def
      setItem_def JSON_stringify_def quote_def quote_char_def Number_toString_def eval_json)
qed

end
